theory Spec2Isabelle
  imports
    Complex_Main
    "HOL-Library.AList"
    "HOL-Library.Char_ord"
    "HOL-Library.List_Lexorder"
    "HOL-Library.Log_Nat"
begin

section \<open>JavaScript values and built-ins used by app.js\<close>

text \<open>
  Strings are byte lists (UTF-8). The default comparator of \<open>Array.prototype.sort\<close>
  compares strings by code unit, which for the ASCII keys of the documents is the
  lexicographic order on characters by code: the order that \<open>Char_ord\<close> and
  \<open>List_Lexorder\<close> give to \<^typ>\<open>string\<close>.

  A finite number (a double) is modelled by the real it denotes; \<open>year\<close> and \<open>month\<close>
  are integers, as the wire schema has them. Comparisons of doubles are comparisons of
  these reals. The subtractions of \<open>updateStats\<close> are rounded to the nearest double
  (\<open>fl\<close>, below).
\<close>

text \<open>
  Rounding to the nearest double, ties to even (IEEE 754 binary64, the arithmetic of
  ECMA-262 numbers). Measured in units of the least positive double, \<open>2^-1074\<close>, the
  doubles are the integers of at most 53 bits and their multiples by powers of two: a
  magnitude whose integer part has \<open>b\<close> bits lies between neighbouring doubles that are
  \<open>2^(b - 53)\<close> units apart, and one unit apart when \<open>b\<close> is at most 53 (which covers the
  subnormal numbers). A result of magnitude \<open>2^1024\<close> or more is \<open>Infinity\<close> or
  \<open>-Infinity\<close> in the program; these two are represented by the reals \<open>2^1024\<close> and
  \<open>-2^1024\<close>, which are no doubles.
\<close>

definition least_exp :: nat where
  "least_exp = 1074"

definition fl :: "real \<Rightarrow> real" where
  "fl x =
     (if x = 0 then 0
      else
        let y = \<bar>x\<bar> * 2 ^ least_exp;
            s = nat (bitlen \<lfloor>y\<rfloor> - 53);
            q = y / 2 ^ s;
            n = \<lfloor>q\<rfloor>;
            k = (if q - of_int n < 1 / 2 then n
                 else if 1 / 2 < q - of_int n then n + 1
                 else if even n then n else n + 1);
            r = of_int k * 2 ^ s / 2 ^ least_exp
        in sgn x * (if 2 ^ 1024 \<le> r then 2 ^ 1024 else r))"

text \<open>
  An object (\<open>{...}\<close>) is its list of own properties in enumeration order.
  \<open>o[k]\<close> is \<^const>\<open>map_of\<close>, \<open>Object.keys(o)\<close> is \<open>map fst\<close>; an assignment
  \<open>o[k] = v\<close> is \<^const>\<open>AList.update\<close> (overwrite in place, or add the property).
  The program reads the keys of the objects it builds only through
  \<open>Object.keys(o).sort()\<close>, which depends on the set of keys alone.
\<close>

type_synonym 'v obj = "(string \<times> 'v) list"

text \<open>
  \<open>String(n)\<close> for an integer \<open>n\<close> (of magnitude below \<open>10^21\<close>, as every year and month
  is): its decimal digits, after a minus sign when it is negative.
\<close>

definition digit_char :: "nat \<Rightarrow> char" where
  "digit_char d = (''0123456789'' ! d)"

fun string_of_nat :: "nat \<Rightarrow> string" where
  "string_of_nat n =
     (if n < 10 then [digit_char n]
      else string_of_nat (n div 10) @ [digit_char (n mod 10)])"

declare string_of_nat.simps [simp del]

definition String_of_int :: "int \<Rightarrow> string" where
  "String_of_int i =
     (if i < 0 then CHR ''-'' # string_of_nat (nat (- i)) else string_of_nat (nat i))"

text \<open>
  Built-ins of the host whose results the program only passes on: \<open>ToString\<close> of a
  number of magnitude at least \<open>10^21\<close> (exponent notation, or \<open>Infinity\<close>), \<open>parseInt\<close>
  (\<open>None\<close> is \<open>NaN\<close>) and \<open>Date.prototype.toLocaleDateString\<close>. They are parameters of
  the model.
\<close>

record builtins =
  ToString :: "real \<Rightarrow> string"
  parseInt :: "string \<Rightarrow> int option"
  toLocaleDateString :: "string \<Rightarrow> string"

text \<open>
  \<open>Number.prototype.toFixed(f)\<close> on a number, step by step as ECMA-262 defines it:
  the sign is split off; a magnitude from \<open>10^21\<close> on (an infinite one too) is printed by
  \<open>ToString\<close>; otherwise \<open>n\<close> is the integer nearest to \<open>x * 10^f\<close> (the larger one on a
  tie), its digits are padded with zeros to \<open>f + 1\<close> places and the point is put before
  the last \<open>f\<close> of them.
\<close>

definition toFixed :: "builtins \<Rightarrow> real \<Rightarrow> nat \<Rightarrow> string" where
  "toFixed B x0 f =
     (let s = (if x0 < 0 then ''-'' else '''');
          x = (if x0 < 0 then - x0 else x0)
      in if 10 ^ 21 \<le> x then s @ ToString B x
         else
           let n = nat \<lfloor>x * 10 ^ f + 1 / 2\<rfloor>;
               m = (if n = 0 then ''0'' else string_of_nat n);
               m' = (if f \<noteq> 0
                     then let z = (if length m \<le> f
                                   then replicate (f + 1 - length m) (CHR ''0'') @ m
                                   else m);
                              k = length z
                          in take (k - f) z @ ''.'' @ drop (k - f) z
                     else m)
           in s @ m')"

text \<open>A value that is a number or missing (\<open>null\<close>, \<open>undefined\<close>).\<close>

datatype jsnum = Undefined | Null | Num real

text \<open>
  \<open>v >= 0\<close>: \<open>null\<close> is converted to \<open>0\<close> and the comparison holds; \<open>undefined\<close> is
  converted to \<open>NaN\<close> and it does not.
\<close>

fun ge_zero :: "jsnum \<Rightarrow> bool" where
  "ge_zero Undefined = False"
| "ge_zero Null = True"
| "ge_zero (Num x) = (x \<ge> 0)"

section \<open>utils\<close>

text \<open>\<open>formatNumber: (num, dec = 2) => num == null ? '--' : Number(num).toFixed(dec)\<close>\<close>

fun formatNumber :: "builtins \<Rightarrow> jsnum \<Rightarrow> nat \<Rightarrow> string" where
  "formatNumber B Undefined dec = ''--''"
| "formatNumber B Null dec = ''--''"
| "formatNumber B (Num x) dec = toFixed B x dec"

text \<open>A string that may be missing is truthy when it is there and not empty.\<close>

definition truthy :: "string option \<Rightarrow> bool" where
  "truthy s = (case s of None \<Rightarrow> False | Some t \<Rightarrow> t \<noteq> [])"

text \<open>\<open>formatDate: (str) => str ? new Date(str).toLocaleDateString('de-DE', ...) : '--'\<close>\<close>

definition formatDate :: "builtins \<Rightarrow> string option \<Rightarrow> string" where
  "formatDate B str =
     (case str of None \<Rightarrow> ''--''
      | Some t \<Rightarrow> if t \<noteq> [] then toLocaleDateString B t else ''--'')"

text \<open>
  The month names, byte for byte as the source file has them (the third one is not
  ASCII there).
\<close>

definition monthNames :: "string list" where
  "monthNames =
     [''Jan'', ''Feb'', [CHR ''M'', CHR 0xC3, CHR 0x83, CHR 0xC2, CHR 0xA4, CHR ''r''],
      ''Apr'', ''Mai'', ''Jun'', ''Jul'', ''Aug'', ''Sep'', ''Okt'', ''Nov'', ''Dez'']"

text \<open>\<open>getMonthName: (m) => [...][m - 1] || ''\<close>\<close>

definition getMonthName :: "int \<Rightarrow> string" where
  "getMonthName m = (if 1 \<le> m \<and> m \<le> 12 then monthNames ! nat (m - 1) else '''')"

section \<open>The documents and the state\<close>

record co2_obs =
  year :: int
  month :: int
  average :: real

text \<open>
  \<open>updateStats\<close> formats the latest \<open>anomaly\<close> as it stands, without computing with it:
  the model keeps an anomaly that is missing in the document.
\<close>

record temp_obs =
  t_year :: int
  t_month :: int
  anomaly :: jsnum

record ice_obs =
  i_month :: int
  extent :: real

text \<open>A field that the document may lack (or hold as \<open>null\<close>) is an option.\<close>

record co2_doc =
  co2_data :: "co2_obs list option"
  co2_last_updated :: "string option"

record temp_doc =
  temp_data :: "temp_obs list option"
  baseline :: "string option"
  temp_last_updated :: "string option"

record ice_doc =
  ice_data :: "ice_obs list obj option"
  median :: "real obj option"
  ice_last_updated :: "string option"

text \<open>\<open>state\<close>: a document is \<open>None\<close> when its fetch failed (\<open>fetchData\<close> returns \<open>null\<close>).\<close>

record state =
  co2Data :: "co2_doc option"
  temperatureData :: "temp_doc option"
  seaIceData :: "ice_doc option"

section \<open>updateStats\<close>

text \<open>\<open>xs[xs.length - 1]\<close>: the last element, \<open>undefined\<close> on an empty array.\<close>

definition latest :: "'a list \<Rightarrow> 'a option" where
  "latest xs = (if xs = [] then None else Some (last xs))"

text \<open>
  \<open>data.find(d => d.year === latestCO2.year - 1 && d.month === latestCO2.month)\<close>
  The subtraction \<open>latestCO2.year - 1\<close> is one of doubles, and \<open>d.year\<close> is compared with
  its result.
\<close>

definition previousYearCO2 :: "co2_obs list \<Rightarrow> co2_obs \<Rightarrow> co2_obs option" where
  "previousYearCO2 data latestCO2 =
     List.find (\<lambda>d. of_int (year d) = fl (of_int (year latestCO2) - 1)
                    \<and> month d = month latestCO2) data"

text \<open>
  The variable \<open>change\<close>:
  \<open>let change = 0; if (previousYearCO2) change = latestCO2.average - previousYearCO2.average;\<close>
\<close>

definition change :: "co2_obs list \<Rightarrow> co2_obs \<Rightarrow> real" where
  "change data latestCO2 =
     (case previousYearCO2 data latestCO2 of
        None \<Rightarrow> 0
      | Some p \<Rightarrow> fl (average latestCO2 - average p))"

text \<open>
  What \<open>updateStats\<close> writes into a tile of the page: the date line, the KPI text, the
  KPI's class and the absolute value of the subtitle (of the subtitle's markup, only
  the interpolated text is kept). The elements of the page are taken to exist.
\<close>

record kpi_tile =
  date_text :: string
  kpi_text :: string
  kpi_class :: string
  abs_text :: string

text \<open>The separator after the year in the date lines, byte for byte.\<close>

definition bullet :: string where
  "bullet = [CHR 0xC3, CHR 0xA2, CHR 0xE2, CHR 0x82, CHR 0xAC, CHR 0xC2, CHR 0xA2]"

text \<open>\<open>(x >= 0 ? '+' : '') + utils.formatNumber(x, 2)\<close>, for a number \<open>x\<close>\<close>

definition signed_text :: "builtins \<Rightarrow> real \<Rightarrow> string" where
  "signed_text B x = (if x \<ge> 0 then ''+'' else '''') @ formatNumber B (Num x) 2"

text \<open>The same expression, for a value that may be missing.\<close>

definition signed_js :: "builtins \<Rightarrow> jsnum \<Rightarrow> string" where
  "signed_js B v = (if ge_zero v then ''+'' else '''') @ formatNumber B v 2"

definition co2_tile_of :: "builtins \<Rightarrow> co2_obs list \<Rightarrow> co2_obs \<Rightarrow> kpi_tile" where
  "co2_tile_of B data latestCO2 =
     (let c = change data latestCO2
      in \<lparr>date_text = getMonthName (month latestCO2) @ '' ''
                        @ String_of_int (year latestCO2) @ '' '' @ bullet,
          kpi_text = signed_text B c,
          kpi_class = ''text-3xl font-bold ''
                        @ (if c \<ge> 0 then ''text-climate-accent-red''
                           else ''text-climate-accent-teal''),
          abs_text = formatNumber B (Num (average latestCO2)) 2 @ '' ppm''\<rparr>)"

text \<open>
  The CO2 block:
  \<open>if (state.co2Data && state.co2Data.data && state.co2Data.data.length > 0) {...}\<close>
\<close>

definition co2_stats :: "builtins \<Rightarrow> co2_doc option \<Rightarrow> kpi_tile option" where
  "co2_stats B doc =
     (case doc of None \<Rightarrow> None
      | Some D \<Rightarrow>
          (case co2_data D of None \<Rightarrow> None
           | Some data \<Rightarrow>
               (case latest data of None \<Rightarrow> None
                | Some latestCO2 \<Rightarrow> Some (co2_tile_of B data latestCO2))))"

record temp_tile =
  current_temp :: string
  temp_date :: string
  temp_baseline :: "string option"

text \<open>The temperature block; \<open>temp-baseline\<close> is written only for a truthy baseline.\<close>

definition temp_stats :: "builtins \<Rightarrow> temp_doc option \<Rightarrow> temp_tile option" where
  "temp_stats B doc =
     (case doc of None \<Rightarrow> None
      | Some D \<Rightarrow>
          (case temp_data D of None \<Rightarrow> None
           | Some data \<Rightarrow>
               (case latest data of None \<Rightarrow> None
                | Some latestTemp \<Rightarrow>
                    Some \<lparr>current_temp = signed_js B (anomaly latestTemp),
                          temp_date = getMonthName (t_month latestTemp) @ '' ''
                                        @ String_of_int (t_year latestTemp) @ '' '' @ bullet,
                          temp_baseline = (if truthy (baseline D) then baseline D else None)\<rparr>)))"

text \<open>\<open>Object.keys(o).sort().reverse()\<close>\<close>

definition keys_desc :: "'v obj \<Rightarrow> string list" where
  "keys_desc ob = rev (sort (map fst ob))"

text \<open>
  The variable \<open>diff\<close> of the sea-ice block:
  \<open>let diff = 0;
    if (state.seaIceData.median && state.seaIceData.median[latestMonth.month]) {
      const median = state.seaIceData.median[latestMonth.month];
      diff = latestMonth.extent - median; }\<close>
  The key of the lookup is \<open>String(latestMonth.month)\<close>; a number is truthy when it is
  not zero.
\<close>

definition diff :: "real obj option \<Rightarrow> ice_obs \<Rightarrow> real" where
  "diff med latestMonth =
     (case med of None \<Rightarrow> 0
      | Some tbl \<Rightarrow>
          (case map_of tbl (String_of_int (i_month latestMonth)) of
             None \<Rightarrow> 0
           | Some v \<Rightarrow> if v \<noteq> 0 then fl (extent latestMonth - v) else 0))"

definition ice_tile_of :: "builtins \<Rightarrow> real obj option \<Rightarrow> string \<Rightarrow> ice_obs \<Rightarrow> kpi_tile" where
  "ice_tile_of B med latestYear latestMonth =
     (let d = diff med latestMonth
      in \<lparr>date_text = getMonthName (i_month latestMonth) @ '' '' @ latestYear @ '' '' @ bullet,
          kpi_text = signed_text B d,
          kpi_class = ''text-3xl font-bold ''
                        @ (if d \<ge> 0 then ''text-climate-accent-teal''
                           else ''text-climate-accent-red''),
          abs_text = formatNumber B (Num (extent latestMonth)) 2
                       @ '' Mio. km'' @ [CHR 0xC3, CHR 0x82, CHR 0xC2, CHR 0xB2]\<rparr>)"

text \<open>
  The sea-ice block:
  \<open>if (state.seaIceData && state.seaIceData.data) {
      const years = Object.keys(state.seaIceData.data).sort().reverse();
      if (years.length > 0) {
        const latestYear = years[0];
        const latestYearData = state.seaIceData.data[latestYear];
        const latestMonth = latestYearData[latestYearData.length - 1];
        if (latestMonth) {...} } }\<close>
  \<open>latestYear\<close> is a key of the object, so the lookup finds its array.
\<close>

definition ice_stats :: "builtins \<Rightarrow> ice_doc option \<Rightarrow> kpi_tile option" where
  "ice_stats B doc =
     (case doc of None \<Rightarrow> None
      | Some D \<Rightarrow>
          (case ice_data D of None \<Rightarrow> None
           | Some dat \<Rightarrow>
               (case keys_desc dat of [] \<Rightarrow> None
                | latestYear # _ \<Rightarrow>
                    (case map_of dat latestYear of None \<Rightarrow> None
                     | Some latestYearData \<Rightarrow>
                         (case latest latestYearData of None \<Rightarrow> None
                          | Some latestMonth \<Rightarrow>
                              Some (ice_tile_of B (median D) latestYear latestMonth))))))"

text \<open>\<open>a || b\<close> on strings that may be missing: \<open>a\<close> when it is truthy, else \<open>b\<close>.\<close>

definition js_or :: "string option \<Rightarrow> string option \<Rightarrow> string option" where
  "js_or a b = (if truthy a then a else b)"

text \<open>\<open>d?.last_updated\<close> for each document.\<close>

definition co2_upd :: "state \<Rightarrow> string option" where
  "co2_upd st = (case co2Data st of None \<Rightarrow> None | Some D \<Rightarrow> co2_last_updated D)"

definition temp_upd :: "state \<Rightarrow> string option" where
  "temp_upd st = (case temperatureData st of None \<Rightarrow> None | Some D \<Rightarrow> temp_last_updated D)"

definition ice_upd :: "state \<Rightarrow> string option" where
  "ice_upd st = (case seaIceData st of None \<Rightarrow> None | Some D \<Rightarrow> ice_last_updated D)"

text \<open>
  \<open>const upd = state.co2Data?.last_updated || state.temperatureData?.last_updated
      || state.seaIceData?.last_updated;\<close>
\<close>

definition upd :: "state \<Rightarrow> string option" where
  "upd st = js_or (js_or (co2_upd st) (temp_upd st)) (ice_upd st)"

text \<open>
  What \<open>updateStats\<close> writes: a tile is \<open>None\<close> when its block is skipped, and
  \<open>last-updated\<close> is written only for a truthy \<open>upd\<close>.
\<close>

record stats =
  co2_tile :: "kpi_tile option"
  temperature_tile :: "temp_tile option"
  ice_tile :: "kpi_tile option"
  last_updated_text :: "string option"

definition updateStats :: "builtins \<Rightarrow> state \<Rightarrow> stats" where
  "updateStats B st =
     \<lparr>co2_tile = co2_stats B (co2Data st),
      temperature_tile = temp_stats B (temperatureData st),
      ice_tile = ice_stats B (seaIceData st),
      last_updated_text = (if truthy (upd st) then Some (formatDate B (upd st)) else None)\<rparr>"

section \<open>getMonthlyBaseline\<close>

text \<open>
  The body of the \<open>forEach\<close>: an observation of the window with a month from 1 to 12
  adds its value to the month's sum and one to the month's count. The sums and the means
  are taken exactly (their rounding to doubles is not modelled).
\<close>

definition baseline_step ::
  "int \<Rightarrow> int \<Rightarrow> real list \<times> nat list \<Rightarrow> co2_obs \<Rightarrow> real list \<times> nat list" where
  "baseline_step startYear endYear acc d =
     (case acc of (monthlySums, monthlyCounts) \<Rightarrow>
        if year d \<ge> startYear \<and> year d \<le> endYear \<and> month d \<ge> 1 \<and> month d \<le> 12
        then (let i = nat (month d - 1)
              in (monthlySums[i := monthlySums ! i + average d],
                  monthlyCounts[i := monthlyCounts ! i + 1]))
        else (monthlySums, monthlyCounts))"

definition baseline_acc :: "co2_obs list \<Rightarrow> int \<Rightarrow> int \<Rightarrow> real list \<times> nat list" where
  "baseline_acc data startYear endYear =
     foldl (baseline_step startYear endYear) (replicate 12 0, replicate 12 0) data"

text \<open>
  \<open>monthlySums.map((sum, i) => monthlyCounts[i] > 0 ? sum / monthlyCounts[i] : null)\<close>
\<close>

definition getMonthlyBaseline :: "co2_obs list \<Rightarrow> int \<Rightarrow> int \<Rightarrow> real option list" where
  "getMonthlyBaseline data startYear endYear =
     (case baseline_acc data startYear endYear of (monthlySums, monthlyCounts) \<Rightarrow>
        map (\<lambda>i. if monthlyCounts ! i > 0
                 then Some (monthlySums ! i / real (monthlyCounts ! i))
                 else None)
            [0 ..< length monthlySums])"

section \<open>renderCO2Chart and renderSeaIceChart: the series\<close>

text \<open>
  The body of the grouping loop:
  \<open>if (!dataByYear[d.year]) dataByYear[d.year] = new Array(12).fill(null);
    if (d.month >= 1 && d.month <= 12) dataByYear[d.year][d.month - 1] = d.average;\<close>
  The property's key is \<open>String(d.year)\<close>; \<open>null\<close> is \<open>None\<close>.
\<close>

definition group_step :: "real option list obj \<Rightarrow> co2_obs \<Rightarrow> real option list obj" where
  "group_step dataByYear d =
     (let k = String_of_int (year d);
          o1 = (if map_of dataByYear k = None
                then AList.update k (replicate 12 None) dataByYear
                else dataByYear)
      in if month d \<ge> 1 \<and> month d \<le> 12
         then (case map_of o1 k of
                 None \<Rightarrow> o1
               | Some b \<Rightarrow> AList.update k (b[nat (month d - 1) := Some (average d)]) o1)
         else o1)"

definition groupByYear :: "co2_obs list \<Rightarrow> real option list obj" where
  "groupByYear data = foldl group_step [] data"

record series =
  s_name :: string
  s_data :: "real option list"

text \<open>
  \<open>years.map(year => ({ name: year, data: dataByYear[year] }))\<close>; every year of the
  list is a key of the object.
\<close>

definition year_series :: "real option list obj \<Rightarrow> string list \<Rightarrow> series list" where
  "year_series dataByYear years =
     map (\<lambda>y. \<lparr>s_name = y,
               s_data = (case map_of dataByYear y of None \<Rightarrow> [] | Some b \<Rightarrow> b)\<rparr>) years"

text \<open>
  The year buckets of the CO2 chart, with the number of years that \<open>slice(0, 5)\<close> keeps
  as a parameter:
  \<open>Object.keys(dataByYear).sort().reverse().slice(0, K)\<close>
\<close>

definition co2_buckets :: "nat \<Rightarrow> co2_obs list \<Rightarrow> series list" where
  "co2_buckets K data =
     (let dataByYear = groupByYear data;
          outputYears = take K (keys_desc dataByYear)
      in year_series dataByYear outputYears)"

text \<open>The series of the CO2 chart: the buckets, then the baseline pushed last.\<close>

definition co2_series :: "nat \<Rightarrow> co2_obs list \<Rightarrow> series list" where
  "co2_series K data =
     co2_buckets K data
       @ [\<lparr>s_name = ''1991-2020 Mittel'', s_data = getMonthlyBaseline data 1991 2020\<rparr>]"

text \<open>
  \<open>renderCO2Chart\<close>: without data (\<open>!state.co2Data?.data?.length\<close>) an error message is
  shown and no chart is built (\<open>None\<close>); otherwise the chart gets the series.
\<close>

definition renderCO2Chart :: "state \<Rightarrow> series list option" where
  "renderCO2Chart st =
     (case co2Data st of None \<Rightarrow> None
      | Some D \<Rightarrow>
          (case co2_data D of None \<Rightarrow> None
           | Some data \<Rightarrow> if data = [] then None else Some (co2_series 5 data)))"

text \<open>
  The bucket of one sea-ice year:
  \<open>md = new Array(12).fill(null);
    yd.forEach(d => { if (d.month >= 1 && d.month <= 12) md[d.month - 1] = d.extent; });\<close>
\<close>

definition ice_step :: "real option list \<Rightarrow> ice_obs \<Rightarrow> real option list" where
  "ice_step md d =
     (if i_month d \<ge> 1 \<and> i_month d \<le> 12 then md[nat (i_month d - 1) := Some (extent d)]
      else md)"

definition ice_bucket :: "ice_obs list \<Rightarrow> real option list" where
  "ice_bucket yd = foldl ice_step (replicate 12 None) yd"

definition ice_buckets :: "nat \<Rightarrow> ice_obs list obj \<Rightarrow> series list" where
  "ice_buckets K dat =
     map (\<lambda>y. \<lparr>s_name = y,
               s_data = (case map_of dat y of None \<Rightarrow> [] | Some yd \<Rightarrow> ice_bucket yd)\<rparr>)
         (take K (keys_desc dat))"

text \<open>
  The median series:
  \<open>Object.keys(median).forEach(m => {
      const i = parseInt(m) - 1; if (i >= 0 && i < 12) md[i] = median[m]; });\<close>
\<close>

definition median_step :: "builtins \<Rightarrow> real option list \<Rightarrow> string \<times> real \<Rightarrow> real option list" where
  "median_step B md kv =
     (case parseInt B (fst kv) of
        None \<Rightarrow> md
      | Some p \<Rightarrow> if p - 1 \<ge> 0 \<and> p - 1 < 12 then md[nat (p - 1) := Some (snd kv)] else md)"

definition median_curve :: "builtins \<Rightarrow> real obj \<Rightarrow> real option list" where
  "median_curve B med = foldl (median_step B) (replicate 12 None) med"

definition ice_series :: "builtins \<Rightarrow> nat \<Rightarrow> ice_obs list obj \<Rightarrow> real obj option \<Rightarrow> series list" where
  "ice_series B K dat med =
     ice_buckets K dat
       @ (case med of None \<Rightarrow> []
          | Some tbl \<Rightarrow> [\<lparr>s_name = ''1981-2010 Median'', s_data = median_curve B tbl\<rparr>])"

text \<open>\<open>renderSeaIceChart\<close>: an error message without \<open>state.seaIceData?.data\<close>.\<close>

definition renderSeaIceChart :: "builtins \<Rightarrow> state \<Rightarrow> series list option" where
  "renderSeaIceChart B st =
     (case seaIceData st of None \<Rightarrow> None
      | Some D \<Rightarrow>
          (case ice_data D of None \<Rightarrow> None
           | Some dat \<Rightarrow> Some (ice_series B 5 dat (median D))))"

section \<open>Notions used to state the properties\<close>

text \<open>
  The observations of the window \<open>[s, e]\<close> that fall in calendar month \<open>m\<close>, in the
  order of the document.
\<close>

definition matching :: "int \<Rightarrow> int \<Rightarrow> int \<Rightarrow> co2_obs list \<Rightarrow> co2_obs list" where
  "matching s e m data = filter (\<lambda>d. s \<le> year d \<and> year d \<le> e \<and> month d = m) data"


text \<open>Chronological order of two observations, by year and then by month.\<close>

definition chron_le :: "co2_obs \<Rightarrow> co2_obs \<Rightarrow> bool" where
  "chron_le a b = (year a < year b \<or> (year a = year b \<and> month a \<le> month b))"

text \<open>
  The most recent of the \<open>last_updated\<close> values that are not null, as the
  specification words the freshness indicator. Timestamps are compared as strings:
  ISO 8601 timestamps of one format and one offset are ordered in time as their strings
  are.
\<close>

definition max_opt :: "string option \<Rightarrow> string option \<Rightarrow> string option" where
  "max_opt a b =
     (case a of None \<Rightarrow> b
      | Some x \<Rightarrow> (case b of None \<Rightarrow> Some x | Some y \<Rightarrow> Some (max x y)))"

definition most_recent_last_updated :: "state \<Rightarrow> string option" where
  "most_recent_last_updated st = max_opt (co2_upd st) (max_opt (temp_upd st) (ice_upd st))"

text \<open>Decimal digits, and the number that a string of digits denotes.\<close>

definition is_digit :: "char \<Rightarrow> bool" where
  "is_digit c = (c \<in> set ''0123456789'')"

definition digit_val :: "char \<Rightarrow> nat" where
  "digit_val c = of_char c - 48"

definition nat_of_string :: "string \<Rightarrow> nat" where
  "nat_of_string ds = foldl (\<lambda>a c. 10 * a + digit_val c) 0 ds"

text \<open>
  The bucket of a year as a function of the document: the observations whose year has
  the key \<open>k\<close> write their slots in the order of the document, starting from 12 absent
  slots.
\<close>

definition year_key :: "co2_obs \<Rightarrow> string" where
  "year_key d = String_of_int (year d)"

definition slot_step :: "real option list \<Rightarrow> co2_obs \<Rightarrow> real option list" where
  "slot_step b d =
     (if 1 \<le> month d \<and> month d \<le> 12 then b[nat (month d - 1) := Some (average d)] else b)"

definition bucket_of :: "string \<Rightarrow> co2_obs list \<Rightarrow> real option list" where
  "bucket_of k data = foldl slot_step (replicate 12 None) (filter (\<lambda>d. year_key d = k) data)"

text \<open>The bucket that the grouping loop finds, or creates, for a key.\<close>

definition start :: "real option list obj \<Rightarrow> string \<Rightarrow> real option list" where
  "start dby k = (case map_of dby k of None \<Rightarrow> replicate 12 None | Some b \<Rightarrow> b)"

section \<open>Doubles\<close>

text \<open>
  A number \<open>m / 2^j\<close> with \<open>m\<close> of magnitude at most \<open>2^53\<close> and \<open>j\<close> at most 1074 is a
  double, and rounding leaves it as it is; so it does every integer of magnitude at most
  \<open>2^53\<close>.
\<close>

lemma fl_zero [simp]: "fl 0 = 0"
  by (simp add: fl_def)

lemma dvd_scaled:
  fixes a :: int
  assumes "0 < a" and "a \<le> 2 ^ 53"
  shows "(2::int) ^ nat (bitlen (a * 2 ^ n) - 53) dvd a * 2 ^ n"
proof (cases "a = 2 ^ 53")
  case True
  have "bitlen ((2::int) ^ 53) = 54"
    using bitlen_twopow_add_eq [of 0 53] by simp
  then have "nat (bitlen (a * 2 ^ n) - 53) \<le> 53 + n"
    unfolding True by (simp del: power_numeral)
  then have "(2::int) ^ nat (bitlen (a * 2 ^ n) - 53) dvd 2 ^ (53 + n)"
    by (rule le_imp_power_dvd)
  then show ?thesis
    unfolding True by (simp only: power_add)
next
  case False
  with assms have "a < 2 ^ 53"
    by simp
  then have "bitlen a \<le> 53"
    using bitlen_le_iff_power [of a 53] by simp
  then have "nat (bitlen (a * 2 ^ n) - 53) \<le> n"
    using assms(1) by simp
  then have "(2::int) ^ nat (bitlen (a * 2 ^ n) - 53) dvd 2 ^ n"
    by (rule le_imp_power_dvd)
  then show ?thesis
    by (rule dvd_mult)
qed

lemma fl_exact:
  assumes "\<bar>m\<bar> \<le> 2 ^ 53" and "j \<le> least_exp"
  shows "fl (of_int m / 2 ^ j) = of_int m / 2 ^ j"
proof (cases "m = 0")
  case True
  then show ?thesis by (simp add: fl_def)
next
  case False
  define x :: real where "x = of_int m / 2 ^ j"
  define a where "a = \<bar>m\<bar>"
  define Y where "Y = a * 2 ^ (least_exp - j)"
  define s where "s = nat (bitlen Y - 53)"
  have a: "0 < a" "a \<le> 2 ^ 53"
    using False assms(1) by (simp_all add: a_def)
  have y: "\<bar>x\<bar> * 2 ^ least_exp = of_int Y"
  proof -
    have "(2::real) ^ least_exp = 2 ^ j * 2 ^ (least_exp - j)"
      using assms(2) by (simp flip: power_add)
    then show ?thesis
      by (simp add: Y_def a_def x_def abs_divide)
  qed
  from dvd_scaled [OF a, of "least_exp - j"] obtain Q where Q: "Y = 2 ^ s * Q"
    unfolding Y_def s_def by (auto elim: dvdE)
  have q: "(of_int Y :: real) / 2 ^ s = of_int Q"
    by (simp add: Q)
  have r: "(of_int Q :: real) * 2 ^ s / 2 ^ least_exp = \<bar>x\<bar>"
  proof -
    have "(of_int Q :: real) * 2 ^ s = \<bar>x\<bar> * 2 ^ least_exp"
      by (simp add: Q y)
    then show ?thesis
      by simp
  qed
  have small: "\<not> (2::real) ^ 1024 \<le> \<bar>x\<bar>"
  proof -
    have "1 \<le> (2::real) ^ j"
      by simp
    then have "\<bar>real_of_int m\<bar> / 2 ^ j \<le> \<bar>real_of_int m\<bar> / 1"
      by (intro divide_left_mono) simp_all
    then have "\<bar>x\<bar> \<le> \<bar>real_of_int m\<bar>"
      by (simp add: x_def abs_divide)
    also have "\<bar>real_of_int m\<bar> = real_of_int \<bar>m\<bar>"
      by simp
    also have "real_of_int \<bar>m\<bar> \<le> real_of_int (2 ^ 53)"
      using assms(1) by (simp only: of_int_le_iff)
    also have "real_of_int (2 ^ 53) < 2 ^ 1024"
      by simp
    finally show ?thesis by simp
  qed
  have nz: "x \<noteq> 0"
    using False by (simp add: x_def)
  have "fl x = sgn x * \<bar>x\<bar>"
    unfolding fl_def Let_def y s_def [symmetric] q floor_of_int
    using nz small by (simp add: r del: power_numeral)
  then show ?thesis
    by (simp add: x_def sgn_if abs_if split: if_splits)
qed

lemma fl_int: "\<bar>m\<bar> \<le> 2 ^ 53 \<Longrightarrow> fl (of_int m) = of_int m"
  using fl_exact [of m 0] by simp

lemma fl_numeral [simp]: "(numeral n :: int) \<le> 2 ^ 53 \<Longrightarrow> fl (numeral n) = numeral n"
  using fl_int [of "numeral n"] by simp

lemma fl_neg_numeral [simp]:
  "(numeral n :: int) \<le> 2 ^ 53 \<Longrightarrow> fl (- numeral n) = - numeral n"
  using fl_int [of "- numeral n"] by simp

lemma fl_one [simp]: "fl 1 = 1" "fl (- 1) = - 1"
  using fl_int [of 1] fl_int [of "- 1"] by simp_all

section \<open>Decimal strings\<close>

lemma digit_cases: "d < 10 \<Longrightarrow> d \<in> {0, 1, 2, 3, 4, 5, 6, 7, 8, 9::nat}"
  by auto

lemma digit_char_props:
  assumes "d < 10"
  shows "is_digit (digit_char d)" and "digit_val (digit_char d) = d"
    and "digit_char d \<noteq> CHR ''-''"
  using digit_cases [OF assms]
  by (auto simp: is_digit_def digit_val_def digit_char_def)

lemma nat_of_string_snoc: "nat_of_string (ds @ [c]) = 10 * nat_of_string ds + digit_val c"
  by (simp add: nat_of_string_def)

lemma string_of_nat_props:
  "string_of_nat n \<noteq> [] \<and> list_all is_digit (string_of_nat n) \<and>
   nat_of_string (string_of_nat n) = n"
proof (induction n rule: string_of_nat.induct)
  case (1 n)
  show ?case
  proof (cases "n < 10")
    case True
    then show ?thesis
      by (subst (1 2 3) string_of_nat.simps) (simp add: digit_char_props nat_of_string_def)
  next
    case False
    have "n mod 10 < 10" by simp
    with False 1 show ?thesis
      by (subst (1 2 3) string_of_nat.simps) (simp add: digit_char_props nat_of_string_snoc)
  qed
qed

lemma string_of_nat_inj: "string_of_nat m = string_of_nat n \<Longrightarrow> m = n"
  by (metis string_of_nat_props)

lemma String_of_int_inj: "String_of_int i = String_of_int j \<Longrightarrow> i = j"
proof -
  have hd_digit: "hd (string_of_nat n) \<noteq> CHR ''-''" for n
    using string_of_nat_props [of n]
    by (cases "string_of_nat n") (auto simp: is_digit_def)
  assume a: "String_of_int i = String_of_int j"
  show "i = j"
  proof (cases "i < 0"; cases "j < 0")
    assume "i < 0" "j < 0"
    with a have "nat (- i) = nat (- j)"
      by (auto simp: String_of_int_def dest: string_of_nat_inj)
    with \<open>i < 0\<close> \<open>j < 0\<close> show ?thesis by simp
  next
    assume "i < 0" "\<not> j < 0"
    with a hd_digit [of "nat j"] show ?thesis
      by (auto simp: String_of_int_def dest: arg_cong [where f = hd])
  next
    assume "\<not> i < 0" "j < 0"
    with a hd_digit [of "nat i"] show ?thesis
      by (auto simp: String_of_int_def dest: arg_cong [where f = hd])
  next
    assume "\<not> i < 0" "\<not> j < 0"
    with a have "nat i = nat j"
      by (auto simp: String_of_int_def dest: string_of_nat_inj)
    with \<open>\<not> i < 0\<close> \<open>\<not> j < 0\<close> show ?thesis by simp
  qed
qed

text \<open>
  Strings of digits of one length are ordered as the numbers they denote; so are the
  keys of two years from 1000 to 9999.
\<close>

lemma foldl_decimal:
  "foldl (\<lambda>a c. 10 * a + digit_val c) a ds
     = a * 10 ^ length ds + foldl (\<lambda>a c. 10 * a + digit_val c) 0 ds"
proof (induction ds arbitrary: a)
  case Nil
  then show ?case by simp
next
  case (Cons c ds)
  show ?case
    using Cons.IH [of "10 * a + digit_val c"] Cons.IH [of "digit_val c"]
    by (simp add: algebra_simps)
qed

lemma nat_of_string_Cons:
  "nat_of_string (c # ds) = digit_val c * 10 ^ length ds + nat_of_string ds"
  using foldl_decimal [of "digit_val c" ds] by (simp add: nat_of_string_def)

lemma is_digit_code: "is_digit c \<Longrightarrow> 48 \<le> (of_char c :: nat) \<and> (of_char c :: nat) \<le> 57"
  by (auto simp: is_digit_def)

lemma digit_val_less: "is_digit c \<Longrightarrow> digit_val c < 10"
  using is_digit_code [of c] unfolding digit_val_def by arith

lemma is_digit_order:
  assumes "is_digit a" and "is_digit b"
  shows "a < b \<longleftrightarrow> digit_val a < digit_val b"
    and "a = b \<longleftrightarrow> digit_val a = digit_val b"
proof -
  have ca: "48 \<le> (of_char a :: nat)" and cb: "48 \<le> (of_char b :: nat)"
    using is_digit_code [OF assms(1)] is_digit_code [OF assms(2)] by simp_all
  show "a < b \<longleftrightarrow> digit_val a < digit_val b"
    using ca cb by (auto simp: digit_val_def less_char_def)
  have "digit_val a = digit_val b \<longleftrightarrow> (of_char a :: nat) = of_char b"
    using ca cb unfolding digit_val_def by arith
  then show "a = b \<longleftrightarrow> digit_val a = digit_val b"
    by (simp only: of_char_eq_iff)
qed

lemma nat_of_string_bound: "list_all is_digit ds \<Longrightarrow> nat_of_string ds < 10 ^ length ds"
proof (induction ds)
  case Nil
  then show ?case by (simp add: nat_of_string_def)
next
  case (Cons c ds)
  then have v: "digit_val c < 10" and x: "nat_of_string ds < 10 ^ length ds"
    by (simp_all add: digit_val_less)
  have "digit_val c * 10 ^ length ds + nat_of_string ds < (digit_val c + 1) * 10 ^ length ds"
    using x by simp
  also have "\<dots> \<le> 10 * 10 ^ length ds"
    using v by (intro mult_le_mono1) simp
  finally show ?case
    by (simp add: nat_of_string_Cons)
qed

lemma leading_digit_order:
  fixes a b P X Y :: nat
  assumes "X < P" and "Y < P"
  shows "a * P + X < b * P + Y \<longleftrightarrow> a < b \<or> (a = b \<and> X < Y)"
proof (cases a b rule: linorder_cases)
  case less
  then have "(a + 1) * P \<le> b * P"
    by (intro mult_le_mono1) simp
  then show ?thesis
    using less assms by simp
next
  case equal
  then show ?thesis by simp
next
  case greater
  then have "(b + 1) * P \<le> a * P"
    by (intro mult_le_mono1) simp
  then show ?thesis
    using greater assms by simp
qed

lemma digits_order:
  assumes "length xs = length ys" and "list_all is_digit xs" and "list_all is_digit ys"
  shows "xs < ys \<longleftrightarrow> nat_of_string xs < nat_of_string ys"
  using assms
proof (induction xs ys rule: list_induct2)
  case Nil
  then show ?case by (simp add: nat_of_string_def)
next
  case (Cons a xs b ys)
  then have d: "is_digit a" "is_digit b" "list_all is_digit xs" "list_all is_digit ys"
    by simp_all
  have ih: "xs < ys \<longleftrightarrow> nat_of_string xs < nat_of_string ys"
    using Cons d by simp
  have bnd: "nat_of_string xs < 10 ^ length ys" "nat_of_string ys < 10 ^ length ys"
    using nat_of_string_bound [OF d(3)] nat_of_string_bound [OF d(4)] Cons.hyps by simp_all
  show ?case
    using leading_digit_order [OF bnd, of "digit_val a" "digit_val b"]
          is_digit_order [OF d(1,2)] ih Cons.hyps
    by (simp add: nat_of_string_Cons)
qed

lemma string_of_nat_order:
  assumes "length (string_of_nat m) = length (string_of_nat n)"
  shows "string_of_nat m < string_of_nat n \<longleftrightarrow> m < n"
  using digits_order [OF assms] string_of_nat_props [of m] string_of_nat_props [of n]
  by simp

lemma length_four_digits:
  assumes "1000 \<le> n" and "n \<le> 9999"
  shows "length (string_of_nat n) = 4"
proof -
  have "\<not> n < 10" "\<not> n div 10 < 10" "\<not> n div 10 div 10 < 10" "n div 10 div 10 div 10 < 10"
    using assms by simp_all
  then show ?thesis
    by (simp add: string_of_nat.simps [of n] string_of_nat.simps [of "n div 10"]
          string_of_nat.simps [of "n div 10 div 10"] string_of_nat.simps [of "n div 10 div 10 div 10"])
qed

lemma String_of_int_order:
  assumes "1000 \<le> i" "i \<le> 9999" "1000 \<le> j" "j \<le> 9999"
  shows "String_of_int i < String_of_int j \<longleftrightarrow> i < j"
proof -
  have "length (string_of_nat (nat i)) = length (string_of_nat (nat j))"
    using assms by (simp add: length_four_digits)
  from string_of_nat_order [OF this] show ?thesis
    using assms by (simp add: String_of_int_def)
qed

section \<open>The tiles and their latest observations\<close>

lemma co2_stats_uses_last:
  "co2_data D = Some data \<Longrightarrow> data \<noteq> [] \<Longrightarrow>
   co2_stats B (Some D) = Some (co2_tile_of B data (last data))"
  by (simp add: co2_stats_def latest_def)

lemma ice_stats_latest:
  assumes "ice_data D = Some dat" and "keys_desc dat = latestYear # r"
    and "map_of dat latestYear = Some yd"
  shows "ice_stats B (Some D)
           = (if yd = [] then None else Some (ice_tile_of B (median D) latestYear (last yd)))"
  using assms by (simp add: ice_stats_def latest_def)

lemma temp_stats_latest:
  assumes "temp_data D = Some data" and "data \<noteq> []"
  shows "\<exists>t. temp_stats B (Some D) = Some t \<and> current_temp t = signed_js B (anomaly (last data))"
  using assms by (simp add: temp_stats_def latest_def)

text \<open>
  The comparator of the year-over-year delta is the first observation of the month of
  the current one in the year before, for a year within the integers that doubles count
  exactly.
\<close>

lemma find_first:
  assumes "xs = pre @ x # post" and "P x" and "\<forall>d\<in>set pre. \<not> P d"
  shows "List.find P xs = Some x"
  using assms by (induction pre arbitrary: xs) auto

lemma year_before:
  assumes "- (2 ^ 53) < y" and "y \<le> 2 ^ 53"
  shows "fl (of_int y - 1) = of_int (y - 1)"
proof -
  have "\<bar>y - 1\<bar> \<le> 2 ^ 53"
    using assms by simp
  from fl_int [OF this] show ?thesis
    by simp
qed

lemma previousYearCO2_None:
  assumes "- (2 ^ 53) < year l" and "year l \<le> 2 ^ 53"
    and "\<forall>d\<in>set data. \<not> (year d = year l - 1 \<and> month d = month l)"
  shows "previousYearCO2 data l = None"
  using assms(3)
  unfolding previousYearCO2_def find_None_iff year_before [OF assms(1,2)] of_int_eq_iff
  by blast

lemma previousYearCO2_Some:
  assumes "- (2 ^ 53) < year l" and "year l \<le> 2 ^ 53"
    and "data = pre @ p # post" and "year p = year l - 1 \<and> month p = month l"
    and "\<forall>d\<in>set pre. \<not> (year d = year l - 1 \<and> month d = month l)"
  shows "previousYearCO2 data l = Some p"
  unfolding previousYearCO2_def year_before [OF assms(1,2)] of_int_eq_iff
  using assms(3-5) by (intro find_first) auto

section \<open>getMonthlyBaseline: the slots of months without observations\<close>

lemma baseline_fold:
  assumes "length ms = 12" "length cs = 12" "i < 12"
  shows "fst (foldl (baseline_step s e) (ms, cs) data) ! i
           = ms ! i + sum_list (map average (matching s e (int i + 1) data)) \<and>
         snd (foldl (baseline_step s e) (ms, cs) data) ! i
           = cs ! i + length (matching s e (int i + 1) data) \<and>
         length (fst (foldl (baseline_step s e) (ms, cs) data)) = 12 \<and>
         length (snd (foldl (baseline_step s e) (ms, cs) data)) = 12"
  using assms
proof (induction data arbitrary: ms cs)
  case Nil
  then show ?case by (simp add: matching_def)
next
  case (Cons d ds)
  obtain ms' cs' where st: "baseline_step s e (ms, cs) d = (ms', cs')"
    by (cases "baseline_step s e (ms, cs) d")
  have len: "length ms' = 12" "length cs' = 12"
    using st Cons.prems by (auto simp: baseline_step_def Let_def split: if_splits)
  have here: "ms' ! i = ms ! i + sum_list (map average (matching s e (int i + 1) [d]))"
             "cs' ! i = cs ! i + length (matching s e (int i + 1) [d])"
    using st Cons.prems by (auto simp: baseline_step_def Let_def matching_def nth_list_update split: if_splits)
  have app: "matching s e (int i + 1) (d # ds) = matching s e (int i + 1) [d] @ matching s e (int i + 1) ds"
    by (simp add: matching_def)
  show ?case
    using Cons.IH [OF len Cons.prems(3)] here by (simp add: st app)
qed


lemma getMonthlyBaseline_length: "length (getMonthlyBaseline data s e) = 12"
proof -
  obtain ms cs where acc: "baseline_acc data s e = (ms, cs)"
    by (cases "baseline_acc data s e")
  have "length ms = 12"
    using baseline_fold [of "replicate 12 0" "replicate 12 0" 0 s e data] acc
    by (simp add: baseline_acc_def)
  then show ?thesis
    by (simp add: getMonthlyBaseline_def acc)
qed

lemma getMonthlyBaseline_nth:
  assumes "i < 12"
  shows "getMonthlyBaseline data s e ! i =
           (if matching s e (int i + 1) data = [] then None
            else Some (sum_list (map average (matching s e (int i + 1) data))
                         / real (length (matching s e (int i + 1) data))))"
proof -
  obtain ms cs where acc: "baseline_acc data s e = (ms, cs)"
    by (cases "baseline_acc data s e")
  have f: "ms ! i = sum_list (map average (matching s e (int i + 1) data))"
          "cs ! i = length (matching s e (int i + 1) data)"
          "length ms = 12"
    using baseline_fold [of "replicate 12 0" "replicate 12 0" i s e data] acc assms
    by (simp_all add: baseline_acc_def)
  have "getMonthlyBaseline data s e ! i =
          (if cs ! i > 0 then Some (ms ! i / real (cs ! i)) else None)"
    using assms f(3) by (simp add: getMonthlyBaseline_def acc)
  then show ?thesis
    by (simp add: f)
qed

text \<open>
  Claim C6. For every document and window \<open>[s, e]\<close>, the reference curve has 12 slots;
  the slot of a calendar month is absent (\<open>None\<close>, neither \<open>0\<close> nor the result of a
  division by a zero count) exactly when no observation of the window falls in that
  month, and is otherwise the mean of the month's observations; a window without
  observations gives 12 absent slots.
\<close>

theorem getMonthlyBaseline_absent_slots:
  "length (getMonthlyBaseline data s e) = 12 \<and>
   (\<forall>i<12. getMonthlyBaseline data s e ! i =
       (if matching s e (int i + 1) data = [] then None
        else Some (sum_list (map average (matching s e (int i + 1) data))
                     / real (length (matching s e (int i + 1) data))))) \<and>
   ((\<forall>d\<in>set data. \<not> (s \<le> year d \<and> year d \<le> e))
      \<longrightarrow> getMonthlyBaseline data s e = replicate 12 None)"
proof (intro conjI impI)
  show "length (getMonthlyBaseline data s e) = 12"
    by (rule getMonthlyBaseline_length)
  show "\<forall>i<12. getMonthlyBaseline data s e ! i =
       (if matching s e (int i + 1) data = [] then None
        else Some (sum_list (map average (matching s e (int i + 1) data))
                     / real (length (matching s e (int i + 1) data))))"
    by (simp add: getMonthlyBaseline_nth)
next
  assume out: "\<forall>d\<in>set data. \<not> (s \<le> year d \<and> year d \<le> e)"
  have empty: "matching s e m data = []" for m
    using out by (auto simp: matching_def filter_empty_conv)
  show "getMonthlyBaseline data s e = replicate 12 None"
    by (rule nth_equalityI) (simp_all add: getMonthlyBaseline_length getMonthlyBaseline_nth empty)
qed

text \<open>
  Claim C6, at a document with one observation (March 2000): the window 1991-1995
  holds none and gives 12 absent slots; in the window 1991-2020 the slot of January is
  absent and the slot of March is the observation's value.
\<close>

theorem getMonthlyBaseline_absent_slots_witness:
  "getMonthlyBaseline [\<lparr>year = 2000, month = 3, average = 370\<rparr>] 1991 1995 = replicate 12 None \<and>
   getMonthlyBaseline [\<lparr>year = 2000, month = 3, average = 370\<rparr>] 1991 2020 ! 0 = None \<and>
   getMonthlyBaseline [\<lparr>year = 2000, month = 3, average = 370\<rparr>] 1991 2020 ! 2 = Some 370"
  using getMonthlyBaseline_absent_slots [of "[\<lparr>year = 2000, month = 3, average = 370\<rparr>]" 1991 1995]
        getMonthlyBaseline_absent_slots [of "[\<lparr>year = 2000, month = 3, average = 370\<rparr>]" 1991 2020]
  by (simp add: matching_def)

section \<open>The KPI deltas when there is nothing to compare with\<close>

text \<open>
  Claim C1, as stated, fails. With observations for 2022-06 and 2024-06 only, no
  observation of 2023-06 exists and \<open>change\<close> is \<open>0\<close>; with 2023-06 and 2024-06 of equal
  value the computed delta is \<open>0\<close> as well. In the same way \<open>diff\<close> is \<open>0\<close> when the
  median table has no entry for the month, and when the entry equals the extent. The
  two cases give the same number: nothing tells them apart.
\<close>

theorem kpi_delta_unavailable_counterexample:
  "previousYearCO2 [\<lparr>year = 2022, month = 6, average = 417\<rparr>, \<lparr>year = 2024, month = 6, average = 420\<rparr>]
       \<lparr>year = 2024, month = 6, average = 420\<rparr> = None \<and>
   change [\<lparr>year = 2022, month = 6, average = 417\<rparr>, \<lparr>year = 2024, month = 6, average = 420\<rparr>]
       \<lparr>year = 2024, month = 6, average = 420\<rparr> = 0 \<and>
   previousYearCO2 [\<lparr>year = 2023, month = 6, average = 420\<rparr>, \<lparr>year = 2024, month = 6, average = 420\<rparr>]
       \<lparr>year = 2024, month = 6, average = 420\<rparr> = Some \<lparr>year = 2023, month = 6, average = 420\<rparr> \<and>
   change [\<lparr>year = 2023, month = 6, average = 420\<rparr>, \<lparr>year = 2024, month = 6, average = 420\<rparr>]
       \<lparr>year = 2024, month = 6, average = 420\<rparr> = 0 \<and>
   diff (Some [(''3'', 14.5)]) \<lparr>i_month = 9, extent = 4.2\<rparr> = 0 \<and>
   diff (Some [(''9'', 4.2)]) \<lparr>i_month = 9, extent = 4.2\<rparr> = 0"
  by (simp add: previousYearCO2_def change_def diff_def String_of_int_def
        string_of_nat.simps digit_char_def)

text \<open>
  Claim C1, amended. The delta is a plain number. In year-over-year mode, for a year
  within the integers that doubles count exactly, it is \<open>0\<close> when the document has no
  observation for the month of the current observation in the year before, and
  otherwise the double nearest to the current value minus the value of the first such
  observation. In reference-table mode it is \<open>0\<close> when the document has no median table
  or the table has no entry under the month's key, and for an entry that is not zero
  the double nearest to the extent minus the entry. These numbers are what the tiles
  print.
\<close>

theorem kpi_delta_defaults_to_zero:
  "(- (2 ^ 53) < year l \<and> year l \<le> 2 ^ 53 \<and>
    (\<forall>d\<in>set data. \<not> (year d = year l - 1 \<and> month d = month l))
      \<longrightarrow> change data l = 0) \<and>
   (- (2 ^ 53) < year l \<and> year l \<le> 2 ^ 53 \<and>
    data = pre @ p # post \<and> year p = year l - 1 \<and> month p = month l \<and>
    (\<forall>d\<in>set pre. \<not> (year d = year l - 1 \<and> month d = month l))
      \<longrightarrow> change data l = fl (average l - average p)) \<and>
   diff None m = 0 \<and>
   (String_of_int (i_month m) \<notin> fst ` set tbl \<longrightarrow> diff (Some tbl) m = 0) \<and>
   (distinct (map fst tbl) \<and> (String_of_int (i_month m), v) \<in> set tbl \<and> v \<noteq> 0
      \<longrightarrow> diff (Some tbl) m = fl (extent m - v)) \<and>
   (co2_data D = Some data \<and> data \<noteq> []
      \<longrightarrow> (\<exists>t. co2_stats B (Some D) = Some t \<and>
               kpi_text t = signed_text B (change data (last data)))) \<and>
   (ice_data I = Some dat \<and> keys_desc dat = latestYear # r \<and>
    map_of dat latestYear = Some yd \<and> yd \<noteq> []
      \<longrightarrow> (\<exists>t. ice_stats B (Some I) = Some t \<and>
               kpi_text t = signed_text B (diff (median I) (last yd))))"
proof (intro conjI impI)
  assume "- (2 ^ 53) < year l \<and> year l \<le> 2 ^ 53 \<and>
    (\<forall>d\<in>set data. \<not> (year d = year l - 1 \<and> month d = month l))"
  then have "previousYearCO2 data l = None"
    by (intro previousYearCO2_None) simp_all
  then show "change data l = 0"
    by (simp add: change_def)
next
  assume "- (2 ^ 53) < year l \<and> year l \<le> 2 ^ 53 \<and>
    data = pre @ p # post \<and> year p = year l - 1 \<and> month p = month l \<and>
    (\<forall>d\<in>set pre. \<not> (year d = year l - 1 \<and> month d = month l))"
  then have "previousYearCO2 data l = Some p"
    by (intro previousYearCO2_Some [where pre = pre and post = post]) simp_all
  then show "change data l = fl (average l - average p)"
    by (simp add: change_def)
next
  show "diff None m = 0"
    by (simp add: diff_def)
next
  assume "String_of_int (i_month m) \<notin> fst ` set tbl"
  then have "map_of tbl (String_of_int (i_month m)) = None"
    by (simp add: map_of_eq_None_iff)
  then show "diff (Some tbl) m = 0"
    by (simp add: diff_def)
next
  assume "distinct (map fst tbl) \<and> (String_of_int (i_month m), v) \<in> set tbl \<and> v \<noteq> 0"
  then have "map_of tbl (String_of_int (i_month m)) = Some v" and "v \<noteq> 0"
    by simp_all
  then show "diff (Some tbl) m = fl (extent m - v)"
    by (simp add: diff_def)
next
  assume "co2_data D = Some data \<and> data \<noteq> []"
  then have "co2_stats B (Some D) = Some (co2_tile_of B data (last data))"
    by (intro co2_stats_uses_last) simp_all
  then show "\<exists>t. co2_stats B (Some D) = Some t \<and>
               kpi_text t = signed_text B (change data (last data))"
    by (simp add: co2_tile_of_def Let_def)
next
  assume a: "ice_data I = Some dat \<and> keys_desc dat = latestYear # r \<and>
    map_of dat latestYear = Some yd \<and> yd \<noteq> []"
  then have "ice_stats B (Some I) = Some (ice_tile_of B (median I) latestYear (last yd))"
    using ice_stats_latest [of I dat latestYear r yd B] by simp
  then show "\<exists>t. ice_stats B (Some I) = Some t \<and>
               kpi_text t = signed_text B (diff (median I) (last yd))"
    by (simp add: ice_tile_of_def Let_def)
qed

text \<open>
  Claim C1, amended, at concrete documents. With observations for 2022-06 and 2024-06
  only the delta is \<open>0\<close>; with 2023-06 (418.5) and 2024-06 (420) it is \<open>1.5\<close>. A table
  without an entry for September gives \<open>0\<close>; the entry 4.5 for an extent of 4.25 gives
  \<open>-0.25\<close>. The tile of the second document prints the delta \<open>1.5\<close>.
\<close>

theorem kpi_delta_defaults_to_zero_witness:
  "\<forall>B. change [\<lparr>year = 2022, month = 6, average = 417\<rparr>, \<lparr>year = 2024, month = 6, average = 420\<rparr>]
         \<lparr>year = 2024, month = 6, average = 420\<rparr> = 0 \<and>
       change [\<lparr>year = 2023, month = 6, average = 418.5\<rparr>, \<lparr>year = 2024, month = 6, average = 420\<rparr>]
         \<lparr>year = 2024, month = 6, average = 420\<rparr> = 1.5 \<and>
       diff (Some [(''3'', 14.5)]) \<lparr>i_month = 9, extent = 4.25\<rparr> = 0 \<and>
       diff (Some [(''9'', 4.5)]) \<lparr>i_month = 9, extent = 4.25\<rparr> = - 0.25 \<and>
       (\<exists>t. co2_stats B (Some \<lparr>co2_data = Some [\<lparr>year = 2023, month = 6, average = 418.5\<rparr>,
                                                   \<lparr>year = 2024, month = 6, average = 420\<rparr>],
                               co2_last_updated = None\<rparr>) = Some t
            \<and> kpi_text t = signed_text B 1.5)"
proof
  fix B
  have k: "String_of_int 9 = ''9''"
    by (simp add: String_of_int_def string_of_nat.simps digit_char_def)
  have f: "fl (3 / 2) = 3 / 2" "fl (- (1 / 4)) = - (1 / 4)"
    using fl_exact [of 3 1] fl_exact [of "- 1" 2] by (simp_all add: least_exp_def)
  have c0: "change [\<lparr>year = 2022, month = 6, average = 417\<rparr>, \<lparr>year = 2024, month = 6, average = 420\<rparr>]
         \<lparr>year = 2024, month = 6, average = 420\<rparr> = 0"
    using kpi_delta_defaults_to_zero
            [where data = "[\<lparr>year = 2022, month = 6, average = 417\<rparr>,
                            \<lparr>year = 2024, month = 6, average = 420\<rparr>]"
               and l = "\<lparr>year = 2024, month = 6, average = 420\<rparr>"]
    by simp
  have c1: "change [\<lparr>year = 2023, month = 6, average = 418.5\<rparr>, \<lparr>year = 2024, month = 6, average = 420\<rparr>]
         \<lparr>year = 2024, month = 6, average = 420\<rparr> = 1.5"
    using kpi_delta_defaults_to_zero
            [where data = "[\<lparr>year = 2023, month = 6, average = 418.5\<rparr>,
                            \<lparr>year = 2024, month = 6, average = 420\<rparr>]"
               and l = "\<lparr>year = 2024, month = 6, average = 420\<rparr>"
               and pre = "[]" and p = "\<lparr>year = 2023, month = 6, average = 418.5\<rparr>"
               and post = "[\<lparr>year = 2024, month = 6, average = 420\<rparr>]"]
    by (simp add: f)
  have d0: "diff (Some [(''3'', 14.5)]) \<lparr>i_month = 9, extent = 4.25\<rparr> = 0"
    using kpi_delta_defaults_to_zero
            [where tbl = "[(''3'', 14.5)]" and m = "\<lparr>i_month = 9, extent = 4.25\<rparr>"]
    by (simp add: k)
  have d1: "diff (Some [(''9'', 4.5)]) \<lparr>i_month = 9, extent = 4.25\<rparr> = - 0.25"
    using kpi_delta_defaults_to_zero
            [where tbl = "[(''9'', 4.5)]" and m = "\<lparr>i_month = 9, extent = 4.25\<rparr>" and v = "4.5"]
    by (simp add: k f)
  have "\<exists>t. co2_stats B (Some \<lparr>co2_data = Some [\<lparr>year = 2023, month = 6, average = 418.5\<rparr>,
                                                   \<lparr>year = 2024, month = 6, average = 420\<rparr>],
                               co2_last_updated = None\<rparr>) = Some t
            \<and> kpi_text t = signed_text B
                  (change [\<lparr>year = 2023, month = 6, average = 418.5\<rparr>,
                           \<lparr>year = 2024, month = 6, average = 420\<rparr>]
                     (last [\<lparr>year = 2023, month = 6, average = 418.5\<rparr>,
                            \<lparr>year = 2024, month = 6, average = 420\<rparr>]))"
    using kpi_delta_defaults_to_zero
            [where D = "\<lparr>co2_data = Some [\<lparr>year = 2023, month = 6, average = 418.5\<rparr>,
                                          \<lparr>year = 2024, month = 6, average = 420\<rparr>],
                         co2_last_updated = None\<rparr>"
               and data = "[\<lparr>year = 2023, month = 6, average = 418.5\<rparr>,
                            \<lparr>year = 2024, month = 6, average = 420\<rparr>]" and B = B]
    by simp
  then obtain t where
    t1: "co2_stats B (Some \<lparr>co2_data = Some [\<lparr>year = 2023, month = 6, average = 418.5\<rparr>,
                                              \<lparr>year = 2024, month = 6, average = 420\<rparr>],
                          co2_last_updated = None\<rparr>) = Some t" and
    t2: "kpi_text t = signed_text B
                  (change [\<lparr>year = 2023, month = 6, average = 418.5\<rparr>,
                           \<lparr>year = 2024, month = 6, average = 420\<rparr>]
                     (last [\<lparr>year = 2023, month = 6, average = 418.5\<rparr>,
                            \<lparr>year = 2024, month = 6, average = 420\<rparr>]))"
    by blast
  have e: "change [\<lparr>year = 2023, month = 6, average = 418.5\<rparr>,
                   \<lparr>year = 2024, month = 6, average = 420\<rparr>]
             (last [\<lparr>year = 2023, month = 6, average = 418.5\<rparr>,
                    \<lparr>year = 2024, month = 6, average = 420\<rparr>]) = 1.5"
    using c1 by simp
  have "kpi_text t = signed_text B 1.5"
    using t2 unfolding e .
  with t1 have t: "\<exists>t. co2_stats B (Some \<lparr>co2_data = Some [\<lparr>year = 2023, month = 6, average = 418.5\<rparr>,
                                                   \<lparr>year = 2024, month = 6, average = 420\<rparr>],
                               co2_last_updated = None\<rparr>) = Some t
            \<and> kpi_text t = signed_text B 1.5"
    by blast
  show "change [\<lparr>year = 2022, month = 6, average = 417\<rparr>, \<lparr>year = 2024, month = 6, average = 420\<rparr>]
         \<lparr>year = 2024, month = 6, average = 420\<rparr> = 0 \<and>
       change [\<lparr>year = 2023, month = 6, average = 418.5\<rparr>, \<lparr>year = 2024, month = 6, average = 420\<rparr>]
         \<lparr>year = 2024, month = 6, average = 420\<rparr> = 1.5 \<and>
       diff (Some [(''3'', 14.5)]) \<lparr>i_month = 9, extent = 4.25\<rparr> = 0 \<and>
       diff (Some [(''9'', 4.5)]) \<lparr>i_month = 9, extent = 4.25\<rparr> = - 0.25 \<and>
       (\<exists>t. co2_stats B (Some \<lparr>co2_data = Some [\<lparr>year = 2023, month = 6, average = 418.5\<rparr>,
                                                   \<lparr>year = 2024, month = 6, average = 420\<rparr>],
                               co2_last_updated = None\<rparr>) = Some t
            \<and> kpi_text t = signed_text B 1.5)"
    using c0 c1 d0 d1 t by blast
qed

section \<open>The current observation of the CO2 tile\<close>

lemma sorted_wrt_last_max:
  "sorted_wrt R xs \<Longrightarrow> x \<in> set xs \<Longrightarrow> x = last xs \<or> R x (last xs)"
  by (induction xs) (auto split: if_splits)

text \<open>
  Claim C5, as stated, fails. In the document that lists 2024-06 before 2023-06 the
  current observation is the last element, 2023-06, although 2024-06 is later; no
  observation of 2022-06 exists, so the delta is \<open>0\<close>.
\<close>

theorem latest_co2_counterexample:
  "latest [\<lparr>year = 2024, month = 6, average = 420\<rparr>, \<lparr>year = 2023, month = 6, average = 418.5\<rparr>]
     = Some \<lparr>year = 2023, month = 6, average = 418.5\<rparr> \<and>
   \<not> chron_le \<lparr>year = 2024, month = 6, average = 420\<rparr> \<lparr>year = 2023, month = 6, average = 418.5\<rparr> \<and>
   change [\<lparr>year = 2024, month = 6, average = 420\<rparr>, \<lparr>year = 2023, month = 6, average = 418.5\<rparr>]
     \<lparr>year = 2023, month = 6, average = 418.5\<rparr> = 0"
  by (simp add: latest_def chron_le_def change_def previousYearCO2_def)

text \<open>
  Claim C5, amended. The current observation of the year-over-year delta is the last
  element of the document's observation list, and the tile is computed from it; it is
  the chronologically latest observation when the list is in chronological order.
\<close>

theorem latest_co2_is_last_element:
  assumes "co2_data D = Some data" and "data \<noteq> []"
  shows "latest data = Some (last data) \<and>
         co2_stats B (Some D) = Some (co2_tile_of B data (last data)) \<and>
         (sorted_wrt chron_le data \<longrightarrow> (\<forall>d\<in>set data. chron_le d (last data)))"
proof (intro conjI impI ballI)
  show "latest data = Some (last data)"
    using assms by (simp add: latest_def)
  show "co2_stats B (Some D) = Some (co2_tile_of B data (last data))"
    using assms by (rule co2_stats_uses_last)
next
  fix d
  assume "sorted_wrt chron_le data" and "d \<in> set data"
  then have "d = last data \<or> chron_le d (last data)"
    by (rule sorted_wrt_last_max)
  then show "chron_le d (last data)"
    by (auto simp: chron_le_def)
qed

text \<open>
  Claim C5, amended, at the document that lists 2023-06 and then 2024-06.
\<close>

theorem latest_co2_is_last_element_witness:
  "\<forall>B. latest [\<lparr>year = 2023, month = 6, average = 418.5\<rparr>, \<lparr>year = 2024, month = 6, average = 420\<rparr>]
     = Some \<lparr>year = 2024, month = 6, average = 420\<rparr> \<and>
   co2_stats B (Some \<lparr>co2_data = Some [\<lparr>year = 2023, month = 6, average = 418.5\<rparr>,
                                         \<lparr>year = 2024, month = 6, average = 420\<rparr>],
                      co2_last_updated = None\<rparr>)
     = Some (co2_tile_of B [\<lparr>year = 2023, month = 6, average = 418.5\<rparr>,
                             \<lparr>year = 2024, month = 6, average = 420\<rparr>]
               \<lparr>year = 2024, month = 6, average = 420\<rparr>) \<and>
   chron_le \<lparr>year = 2023, month = 6, average = 418.5\<rparr> \<lparr>year = 2024, month = 6, average = 420\<rparr>"
  using latest_co2_is_last_element
          [where D = "\<lparr>co2_data = Some [\<lparr>year = 2023, month = 6, average = 418.5\<rparr>,
                                         \<lparr>year = 2024, month = 6, average = 420\<rparr>],
                       co2_last_updated = None\<rparr>"
             and data = "[\<lparr>year = 2023, month = 6, average = 418.5\<rparr>,
                          \<lparr>year = 2024, month = 6, average = 420\<rparr>]"]
  by (simp add: chron_le_def)

section \<open>The data-freshness indicator\<close>

text \<open>
  Claim C4, as stated, fails. When the CO2 document was updated on 2024-01-01 and the
  temperature document on 2025-01-01, \<open>upd\<close> is the CO2 document's value and not the
  most recent one.
\<close>

theorem freshness_counterexample:
  "upd \<lparr>co2Data = Some \<lparr>co2_data = None, co2_last_updated = Some ''2024-01-01T00:00:00Z''\<rparr>,
        temperatureData = Some \<lparr>temp_data = None, baseline = None,
                                 temp_last_updated = Some ''2025-01-01T00:00:00Z''\<rparr>,
        seaIceData = None\<rparr> = Some ''2024-01-01T00:00:00Z'' \<and>
   most_recent_last_updated
      \<lparr>co2Data = Some \<lparr>co2_data = None, co2_last_updated = Some ''2024-01-01T00:00:00Z''\<rparr>,
        temperatureData = Some \<lparr>temp_data = None, baseline = None,
                                 temp_last_updated = Some ''2025-01-01T00:00:00Z''\<rparr>,
        seaIceData = None\<rparr> = Some ''2025-01-01T00:00:00Z''"
  by (simp add: upd_def js_or_def truthy_def co2_upd_def temp_upd_def ice_upd_def
        most_recent_last_updated_def max_opt_def max_def)

text \<open>
  Claim C4, amended. The indicator is taken from the first \<open>last_updated\<close> that is
  neither missing nor empty, in the fixed order CO2, temperature, sea ice, whatever the
  order of the timestamps, and is written only when there is one. It is the most
  recent value when no document has a later one.
\<close>

theorem freshness_is_first_available:
  "upd st = (if truthy (co2_upd st) then co2_upd st
             else if truthy (temp_upd st) then temp_upd st
             else ice_upd st) \<and>
   last_updated_text (updateStats B st)
     = (if truthy (upd st) then Some (formatDate B (upd st)) else None) \<and>
   (upd st = Some u \<and> (\<forall>t. Some t \<in> {co2_upd st, temp_upd st, ice_upd st} \<longrightarrow> t \<le> u)
      \<longrightarrow> most_recent_last_updated st = Some u)"
proof (intro conjI impI)
  show "upd st = (if truthy (co2_upd st) then co2_upd st
             else if truthy (temp_upd st) then temp_upd st
             else ice_upd st)"
    by (simp add: upd_def js_or_def)
  show "last_updated_text (updateStats B st)
     = (if truthy (upd st) then Some (formatDate B (upd st)) else None)"
    by (simp add: updateStats_def)
next
  assume a: "upd st = Some u \<and> (\<forall>t. Some t \<in> {co2_upd st, temp_upd st, ice_upd st} \<longrightarrow> t \<le> u)"
  then have mem: "co2_upd st = Some u \<or> temp_upd st = Some u \<or> ice_upd st = Some u"
    by (auto simp: upd_def js_or_def split: if_splits)
  have le: "x = None \<or> (\<exists>t. x = Some t \<and> t \<le> u)"
    if "x \<in> {co2_upd st, temp_upd st, ice_upd st}" for x
    using a that by (cases x) auto
  have m2: "max_opt x y = Some u"
    if "x = None \<or> (\<exists>t. x = Some t \<and> t \<le> u)" "y = None \<or> (\<exists>t. y = Some t \<and> t \<le> u)"
       "x = Some u \<or> y = Some u" for x y
    using that by (auto simp: max_opt_def max_def split: option.splits)
  have m0: "max_opt x y = None \<or> (\<exists>t. max_opt x y = Some t \<and> t \<le> u)"
    if "x = None \<or> (\<exists>t. x = Some t \<and> t \<le> u)" "y = None \<or> (\<exists>t. y = Some t \<and> t \<le> u)" for x y
    using that by (auto simp: max_opt_def max_def split: option.splits)
  show "most_recent_last_updated st = Some u"
    unfolding most_recent_last_updated_def
  proof (cases "co2_upd st = Some u")
    case True
    show "max_opt (co2_upd st) (max_opt (temp_upd st) (ice_upd st)) = Some u"
      by (rule m2) (use True le m0 in auto)
  next
    case False
    then have "max_opt (temp_upd st) (ice_upd st) = Some u"
      using mem le by (intro m2) auto
    then show "max_opt (co2_upd st) (max_opt (temp_upd st) (ice_upd st)) = Some u"
      using le by (intro m2) auto
  qed
qed

text \<open>
  Claim C4, amended, at a state whose CO2 document has an empty \<open>last_updated\<close>, whose
  temperature document was updated in 2025 and whose sea-ice document in 2024.
\<close>

theorem freshness_is_first_available_witness:
  "upd \<lparr>co2Data = Some \<lparr>co2_data = None, co2_last_updated = Some []\<rparr>,
        temperatureData = Some \<lparr>temp_data = None, baseline = None,
                                 temp_last_updated = Some ''2025-01-01T00:00:00Z''\<rparr>,
        seaIceData = Some \<lparr>ice_data = None, median = None,
                            ice_last_updated = Some ''2024-01-01T00:00:00Z''\<rparr>\<rparr>
     = Some ''2025-01-01T00:00:00Z'' \<and>
   most_recent_last_updated
      \<lparr>co2Data = Some \<lparr>co2_data = None, co2_last_updated = Some []\<rparr>,
        temperatureData = Some \<lparr>temp_data = None, baseline = None,
                                 temp_last_updated = Some ''2025-01-01T00:00:00Z''\<rparr>,
        seaIceData = Some \<lparr>ice_data = None, median = None,
                            ice_last_updated = Some ''2024-01-01T00:00:00Z''\<rparr>\<rparr>
     = Some ''2025-01-01T00:00:00Z''"
  using freshness_is_first_available
          [where st = "\<lparr>co2Data = Some \<lparr>co2_data = None, co2_last_updated = Some []\<rparr>,
                        temperatureData = Some \<lparr>temp_data = None, baseline = None,
                                 temp_last_updated = Some ''2025-01-01T00:00:00Z''\<rparr>,
                        seaIceData = Some \<lparr>ice_data = None, median = None,
                            ice_last_updated = Some ''2024-01-01T00:00:00Z''\<rparr>\<rparr>"
             and u = "''2025-01-01T00:00:00Z''"]
  by (simp add: truthy_def co2_upd_def temp_upd_def ice_upd_def)

section \<open>The sea-ice tile\<close>

lemma toFixed_zero: "toFixed B 0 2 = ''0.00''"
  by (simp add: toFixed_def Let_def)

text \<open>
  Claim C9. When the median table's entry for the month of the latest observation is
  exactly \<open>0\<close>, the entry is treated as absent: \<open>diff\<close> is \<open>0\<close> and the tile shows
  \<open>+0.00\<close>, not the extent minus zero.
\<close>

theorem median_zero_treated_as_absent:
  assumes "ice_data D = Some dat" and "keys_desc dat = latestYear # r"
    and "map_of dat latestYear = Some yd" and "yd \<noteq> []"
    and "median D = Some tbl"
    and "map_of tbl (String_of_int (i_month (last yd))) = Some 0"
  shows "diff (median D) (last yd) = 0 \<and>
         (\<exists>t. ice_stats B (Some D) = Some t \<and> kpi_text t = ''+0.00'')"
proof -
  have d: "diff (median D) (last yd) = 0"
    using assms(5,6) by (simp add: diff_def)
  have "ice_stats B (Some D) = Some (ice_tile_of B (median D) latestYear (last yd))"
    using ice_stats_latest [OF assms(1-3)] assms(4) by simp
  moreover have "kpi_text (ice_tile_of B (median D) latestYear (last yd)) = ''+0.00''"
    by (simp add: ice_tile_of_def d signed_text_def toFixed_zero)
  ultimately show ?thesis
    using d by simp
qed

text \<open>
  Claim C9, at the document with the year 2024, an extent of 4.2 in September and a
  median entry of \<open>0\<close> for September: the tile shows \<open>+0.00\<close>, while the extent minus
  the entry is 4.2.
\<close>

theorem median_zero_treated_as_absent_witness:
  "\<forall>B. diff (Some [(''9'', 0)]) \<lparr>i_month = 9, extent = 4.2\<rparr> = 0 \<and>
       extent \<lparr>i_month = 9, extent = 4.2\<rparr> - 0 = 4.2 \<and>
       (\<exists>t. ice_stats B (Some \<lparr>ice_data = Some [(''2024'', [\<lparr>i_month = 9, extent = 4.2\<rparr>])],
                                 median = Some [(''9'', 0)], ice_last_updated = None\<rparr>) = Some t
            \<and> kpi_text t = ''+0.00'')"
proof
  fix B
  have k: "map_of [(''9'', 0::real)] (String_of_int (i_month (last [\<lparr>i_month = 9, extent = 4.2\<rparr>]))) = Some 0"
    by (simp add: String_of_int_def string_of_nat.simps digit_char_def)
  show "diff (Some [(''9'', 0)]) \<lparr>i_month = 9, extent = 4.2\<rparr> = 0 \<and>
       extent \<lparr>i_month = 9, extent = 4.2\<rparr> - 0 = 4.2 \<and>
       (\<exists>t. ice_stats B (Some \<lparr>ice_data = Some [(''2024'', [\<lparr>i_month = 9, extent = 4.2\<rparr>])],
                                 median = Some [(''9'', 0)], ice_last_updated = None\<rparr>) = Some t
            \<and> kpi_text t = ''+0.00'')"
    using median_zero_treated_as_absent
            [where D = "\<lparr>ice_data = Some [(''2024'', [\<lparr>i_month = 9, extent = 4.2\<rparr>])],
                           median = Some [(''9'', 0)], ice_last_updated = None\<rparr>"
               and dat = "[(''2024'', [\<lparr>i_month = 9, extent = 4.2\<rparr>])]"
               and latestYear = "''2024''" and r = "[]"
               and yd = "[\<lparr>i_month = 9, extent = 4.2\<rparr>]"
               and tbl = "[(''9'', 0)]" and B = B, OF _ _ _ _ _ k]
    by (simp add: keys_desc_def)
qed

text \<open>
  What holds for every state: when the year key that the string sort puts first maps to
  an empty array, the sea-ice tile is not written; and the CO2 and the temperature tile
  are what their own documents give, whatever the sea-ice document is.
\<close>

lemma ice_tile_skipped_for_first_key:
  assumes "seaIceData st = Some D" and "ice_data D = Some dat"
    and "keys_desc dat = latestYear # r" and "map_of dat latestYear = Some []"
  shows "ice_tile (updateStats B st) = None \<and>
         co2_tile (updateStats B st) = co2_stats B (co2Data st) \<and>
         temperature_tile (updateStats B st) = temp_stats B (temperatureData st) \<and>
         co2_tile (updateStats B (st\<lparr>seaIceData := X\<rparr>)) = co2_tile (updateStats B st) \<and>
         temperature_tile (updateStats B (st\<lparr>seaIceData := X\<rparr>))
           = temperature_tile (updateStats B st)"
  using ice_stats_latest [OF assms(2-4), of B] assms(1)
  by (simp add: updateStats_def)

text \<open>
  Claim C10, evaluated. In the sea-ice document with the years 10000 (no observation)
  and 9999 (one observation), the most recent year maps to an empty array, but the
  string sort puts 9999 first: the tile is written, from the observation of 9999.
\<close>

theorem empty_most_recent_year_failing_input:
  "ice_tile (updateStats B
      \<lparr>co2Data = None, temperatureData = None,
       seaIceData = Some \<lparr>ice_data = Some [(''10000'', []),
                                             (''9999'', [\<lparr>i_month = 9, extent = 4.25\<rparr>])],
                           median = None, ice_last_updated = None\<rparr>\<rparr>)
     = Some (ice_tile_of B None ''9999'' \<lparr>i_month = 9, extent = 4.25\<rparr>) \<and>
   keys_desc [(''10000'', [] :: ice_obs list), (''9999'', [\<lparr>i_month = 9, extent = 4.25\<rparr>])]
     = [''9999'', ''10000'']"
  by (simp add: updateStats_def ice_stats_def keys_desc_def latest_def)

section \<open>The text of a KPI\<close>

lemma nat_of_string_zeros: "nat_of_string (replicate k (CHR ''0'') @ ds) = nat_of_string ds"
proof -
  have "foldl (\<lambda>a c. 10 * a + digit_val c) 0 (replicate k (CHR ''0'')) = 0"
    by (induction k) (simp_all add: digit_val_def)
  then show ?thesis
    by (simp add: nat_of_string_def)
qed

lemma toFixed_two:
  assumes "\<bar>x\<bar> < 10 ^ 21"
  shows "\<exists>a b. toFixed B x 2 = (if x < 0 then ''-'' else '''') @ a @ ''.'' @ b \<and>
               a \<noteq> [] \<and> list_all is_digit a \<and> length b = 2 \<and> list_all is_digit b \<and>
               nat_of_string (a @ b) = nat \<lfloor>\<bar>x\<bar> * 100 + 1 / 2\<rfloor>"
proof -
  define n where "n = nat \<lfloor>\<bar>x\<bar> * 10 ^ 2 + 1 / 2\<rfloor>"
  define m where "m = (if n = 0 then ''0'' else string_of_nat n)"
  define z where "z = (if length m \<le> 2 then replicate (2 + 1 - length m) (CHR ''0'') @ m else m)"
  have m: "m \<noteq> []" "list_all is_digit m" "nat_of_string m = n"
    using string_of_nat_props [of n]
    by (auto simp: m_def is_digit_def nat_of_string_def digit_val_def)
  have z: "3 \<le> length z" "list_all is_digit z" "nat_of_string z = n"
    using m by (auto simp: z_def is_digit_def nat_of_string_zeros list_all_iff)
  have abs: "(if x < 0 then - x else x) = \<bar>x\<bar>"
    by simp
  have eq: "toFixed B x 2 = (if x < 0 then ''-'' else '''')
              @ take (length z - 2) z @ ''.'' @ drop (length z - 2) z"
    using assms unfolding toFixed_def abs Let_def n_def [symmetric] m_def [symmetric] z_def [symmetric]
    by simp
  show ?thesis
  proof (intro exI conjI)
    show "toFixed B x 2 = (if x < 0 then ''-'' else '''')
              @ take (length z - 2) z @ ''.'' @ drop (length z - 2) z"
      by (rule eq)
    show "take (length z - 2) z \<noteq> []"
      using z(1) by auto
    show "list_all is_digit (take (length z - 2) z)" "list_all is_digit (drop (length z - 2) z)"
      using z(2) by (auto simp: list_all_iff dest: in_set_takeD in_set_dropD)
    show "length (drop (length z - 2) z) = 2"
      using z(1) by simp
    show "nat_of_string (take (length z - 2) z @ drop (length z - 2) z) = nat \<lfloor>\<bar>x\<bar> * 100 + 1 / 2\<rfloor>"
      using z(3) by (simp add: n_def)
  qed
qed

lemma toFixed_examples: "toFixed B (3 / 2) 2 = ''1.50''" "toFixed B (- (2 / 5)) 2 = ''-0.40''"
  by (simp_all add: toFixed_def Let_def string_of_nat.simps digit_char_def)

lemma signed_text_large:
  assumes "10 ^ 21 \<le> \<bar>x\<bar>"
  shows "signed_text B x = (if 0 \<le> x then ''+'' else ''-'') @ ToString B \<bar>x\<bar>"
  using assms by (simp add: signed_text_def toFixed_def Let_def abs_if)

text \<open>
  Claim C8, as stated, fails. When the latest anomaly of the temperature document is
  \<open>null\<close>, the comparison \<open>null >= 0\<close> holds and the tile shows \<open>+--\<close>: a \<open>+\<close> without a
  value that is not negative, and not the placeholder alone. And for a delta of
  \<open>10^21\<close> the text is \<open>+\<close> and what \<open>ToString\<close> gives for the number (\<open>1e+21\<close> in
  ECMA-262), not its digits with two decimals.
\<close>

theorem kpi_text_missing_counterexample:
  "\<forall>B. map_option current_temp
         (temp_stats B (Some \<lparr>temp_data = Some [\<lparr>t_year = 2024, t_month = 6, anomaly = Null\<rparr>],
                               baseline = None, temp_last_updated = None\<rparr>)) = Some ''+--'' \<and>
       signed_text B (10 ^ 21) = ''+'' @ ToString B (10 ^ 21)"
  by (simp add: temp_stats_def latest_def signed_js_def signed_text_def toFixed_def)

text \<open>
  Claim C8, amended. The KPI texts of the CO2 and the sea-ice tile are the signed text
  of their deltas, and the text of the temperature tile is that of the latest anomaly.
  For a number, the text starts with \<open>+\<close> exactly when the number is not negative; for a
  magnitude below \<open>10^21\<close> it is the sign, at least one digit, the point and exactly two
  digits, and the digits are those of the magnitude rounded to hundredths; from
  \<open>10^21\<close> on it is the sign and what \<open>ToString\<close> gives for the magnitude. A missing value
  (\<open>null\<close> or \<open>undefined\<close>) is formatted as \<open>--\<close> by \<open>formatNumber\<close>, and \<open>--\<close> is what the
  temperature tile shows for an anomaly that is \<open>undefined\<close>.
\<close>

theorem kpi_text_format:
  "(co2_data D = Some data \<and> data \<noteq> []
      \<longrightarrow> (\<exists>t. co2_stats B (Some D) = Some t \<and>
               kpi_text t = signed_text B (change data (last data)))) \<and>
   (ice_data I = Some dat \<and> keys_desc dat = latestYear # r \<and>
    map_of dat latestYear = Some yd \<and> yd \<noteq> []
      \<longrightarrow> (\<exists>t. ice_stats B (Some I) = Some t \<and>
               kpi_text t = signed_text B (diff (median I) (last yd)))) \<and>
   (temp_data T = Some tdata \<and> tdata \<noteq> []
      \<longrightarrow> (\<exists>t. temp_stats B (Some T) = Some t \<and>
               current_temp t = signed_js B (anomaly (last tdata)))) \<and>
   (temp_data T = Some tdata \<and> tdata \<noteq> [] \<and> anomaly (last tdata) = Undefined
      \<longrightarrow> (\<exists>t. temp_stats B (Some T) = Some t \<and> current_temp t = ''--'')) \<and>
   signed_js B (Num x) = signed_text B x \<and>
   (take 1 (signed_text B x) = ''+'' \<longleftrightarrow> 0 \<le> x) \<and>
   (\<bar>x\<bar> < 10 ^ 21 \<longrightarrow>
      (\<exists>a b. signed_text B x = (if 0 \<le> x then ''+'' else ''-'') @ a @ ''.'' @ b \<and>
             a \<noteq> [] \<and> list_all is_digit a \<and> length b = 2 \<and> list_all is_digit b \<and>
             nat_of_string (a @ b) = nat \<lfloor>\<bar>x\<bar> * 100 + 1 / 2\<rfloor>)) \<and>
   (10 ^ 21 \<le> \<bar>x\<bar> \<longrightarrow>
      signed_text B x = (if 0 \<le> x then ''+'' else ''-'') @ ToString B \<bar>x\<bar>) \<and>
   formatNumber B Null dec = ''--'' \<and>
   formatNumber B Undefined dec = ''--''"
proof (intro conjI impI)
  assume "co2_data D = Some data \<and> data \<noteq> []"
  then have "co2_stats B (Some D) = Some (co2_tile_of B data (last data))"
    by (intro co2_stats_uses_last) simp_all
  then show "\<exists>t. co2_stats B (Some D) = Some t \<and>
               kpi_text t = signed_text B (change data (last data))"
    by (simp add: co2_tile_of_def Let_def)
next
  assume "ice_data I = Some dat \<and> keys_desc dat = latestYear # r \<and>
    map_of dat latestYear = Some yd \<and> yd \<noteq> []"
  then have "ice_stats B (Some I) = Some (ice_tile_of B (median I) latestYear (last yd))"
    using ice_stats_latest [of I dat latestYear r yd B] by simp
  then show "\<exists>t. ice_stats B (Some I) = Some t \<and>
               kpi_text t = signed_text B (diff (median I) (last yd))"
    by (simp add: ice_tile_of_def Let_def)
next
  assume "temp_data T = Some tdata \<and> tdata \<noteq> []"
  then show "\<exists>t. temp_stats B (Some T) = Some t \<and>
               current_temp t = signed_js B (anomaly (last tdata))"
    by (intro temp_stats_latest) simp_all
next
  assume a: "temp_data T = Some tdata \<and> tdata \<noteq> [] \<and> anomaly (last tdata) = Undefined"
  then have "\<exists>t. temp_stats B (Some T) = Some t \<and>
               current_temp t = signed_js B (anomaly (last tdata))"
    by (intro temp_stats_latest) simp_all
  then show "\<exists>t. temp_stats B (Some T) = Some t \<and> current_temp t = ''--''"
    using a by (simp add: signed_js_def)
next
  show "signed_js B (Num x) = signed_text B x"
    by (simp add: signed_js_def signed_text_def)
  show "take 1 (signed_text B x) = ''+'' \<longleftrightarrow> 0 \<le> x"
    by (simp add: signed_text_def toFixed_def Let_def)
  show "formatNumber B Null dec = ''--''" "formatNumber B Undefined dec = ''--''"
    by simp_all
next
  assume "\<bar>x\<bar> < 10 ^ 21"
  from toFixed_two [OF this, of B] obtain a b where
    ab: "toFixed B x 2 = (if x < 0 then ''-'' else '''') @ a @ ''.'' @ b"
        "a \<noteq> []" "list_all is_digit a" "length b = 2" "list_all is_digit b"
        "nat_of_string (a @ b) = nat \<lfloor>\<bar>x\<bar> * 100 + 1 / 2\<rfloor>"
    by blast
  have "signed_text B x = (if 0 \<le> x then ''+'' else ''-'') @ a @ ''.'' @ b"
    by (simp add: signed_text_def ab(1))
  with ab(2-) show "\<exists>a b. signed_text B x = (if 0 \<le> x then ''+'' else ''-'') @ a @ ''.'' @ b \<and>
             a \<noteq> [] \<and> list_all is_digit a \<and> length b = 2 \<and> list_all is_digit b \<and>
             nat_of_string (a @ b) = nat \<lfloor>\<bar>x\<bar> * 100 + 1 / 2\<rfloor>"
    by blast
next
  assume "10 ^ 21 \<le> \<bar>x\<bar>"
  then show "signed_text B x = (if 0 \<le> x then ''+'' else ''-'') @ ToString B \<bar>x\<bar>"
    by (rule signed_text_large)
qed

text \<open>
  Claim C8, amended, at the values 1.5 and -0.4 (the texts are \<open>+1.50\<close> and \<open>-0.40\<close>), at
  \<open>10^21\<close>, and at a temperature document whose latest anomaly is \<open>undefined\<close> (the tile
  shows \<open>--\<close>) or 1.5 (the tile shows \<open>+1.50\<close>).
\<close>

theorem kpi_text_format_witness:
  "\<forall>B. signed_text B (3 / 2) = ''+1.50'' \<and> signed_text B (- 2 / 5) = ''-0.40'' \<and>
       take 1 (signed_text B (3 / 2)) = ''+'' \<and> take 1 (signed_text B (- 2 / 5)) \<noteq> ''+'' \<and>
       \<bar>3 / 2 :: real\<bar> < 10 ^ 21 \<and>
       signed_text B (10 ^ 21) = ''+'' @ ToString B (10 ^ 21) \<and>
       formatNumber B Null 2 = ''--'' \<and>
       map_option current_temp
         (temp_stats B (Some \<lparr>temp_data = Some [\<lparr>t_year = 2024, t_month = 6, anomaly = Undefined\<rparr>],
                               baseline = None, temp_last_updated = None\<rparr>)) = Some ''--'' \<and>
       map_option current_temp
         (temp_stats B (Some \<lparr>temp_data = Some [\<lparr>t_year = 2024, t_month = 6, anomaly = Num (3 / 2)\<rparr>],
                               baseline = None, temp_last_updated = None\<rparr>)) = Some ''+1.50''"
proof
  fix B
  have a: "signed_text B (3 / 2) = ''+1.50''" "signed_text B (- 2 / 5) = ''-0.40''"
          "take 1 (signed_text B (3 / 2)) = ''+''" "take 1 (signed_text B (- 2 / 5)) \<noteq> ''+''"
          "\<bar>3 / 2 :: real\<bar> < 10 ^ 21" "formatNumber B Null 2 = ''--''"
    using kpi_text_format [where x = "3 / 2" and dec = 2 and B = B]
          kpi_text_format [where x = "- 2 / 5" and dec = 2 and B = B]
    by (simp_all add: signed_text_def toFixed_examples)
  have b: "signed_text B (10 ^ 21) = ''+'' @ ToString B (10 ^ 21)"
    using kpi_text_format [where x = "10 ^ 21" and B = B] by simp
  have "\<exists>t. temp_stats B (Some \<lparr>temp_data = Some [\<lparr>t_year = 2024, t_month = 6, anomaly = Undefined\<rparr>],
                               baseline = None, temp_last_updated = None\<rparr>) = Some t
            \<and> current_temp t = ''--''"
    using kpi_text_format
            [where T = "\<lparr>temp_data = Some [\<lparr>t_year = 2024, t_month = 6, anomaly = Undefined\<rparr>],
                           baseline = None, temp_last_updated = None\<rparr>"
               and tdata = "[\<lparr>t_year = 2024, t_month = 6, anomaly = Undefined\<rparr>]" and B = B]
    by simp
  then have c: "map_option current_temp
         (temp_stats B (Some \<lparr>temp_data = Some [\<lparr>t_year = 2024, t_month = 6, anomaly = Undefined\<rparr>],
                               baseline = None, temp_last_updated = None\<rparr>)) = Some ''--''"
    by auto
  have h: "temp_data \<lparr>temp_data = Some [\<lparr>t_year = 2024, t_month = 6, anomaly = Num (3 / 2)\<rparr>],
                         baseline = None, temp_last_updated = None\<rparr>
             = Some [\<lparr>t_year = 2024, t_month = 6, anomaly = Num (3 / 2)\<rparr>] \<and>
           [\<lparr>t_year = 2024, t_month = 6, anomaly = Num (3 / 2)\<rparr>] \<noteq> []"
          "last [\<lparr>t_year = 2024, t_month = 6, anomaly = Num (3 / 2)\<rparr>]
             = \<lparr>t_year = 2024, t_month = 6, anomaly = Num (3 / 2)\<rparr>"
          "anomaly \<lparr>t_year = 2024, t_month = 6, anomaly = Num (3 / 2)\<rparr> = Num (3 / 2)"
    by simp_all
  have "\<exists>t. temp_stats B (Some \<lparr>temp_data = Some [\<lparr>t_year = 2024, t_month = 6, anomaly = Num (3 / 2)\<rparr>],
                               baseline = None, temp_last_updated = None\<rparr>) = Some t
            \<and> current_temp t = signed_js B (Num (3 / 2))"
    using kpi_text_format
            [where T = "\<lparr>temp_data = Some [\<lparr>t_year = 2024, t_month = 6, anomaly = Num (3 / 2)\<rparr>],
                           baseline = None, temp_last_updated = None\<rparr>"
               and tdata = "[\<lparr>t_year = 2024, t_month = 6, anomaly = Num (3 / 2)\<rparr>]" and B = B]
          h(1)
    unfolding h(2,3) by blast
  then have d: "map_option current_temp
         (temp_stats B (Some \<lparr>temp_data = Some [\<lparr>t_year = 2024, t_month = 6, anomaly = Num (3 / 2)\<rparr>],
                               baseline = None, temp_last_updated = None\<rparr>)) = Some ''+1.50''"
    using a(1) by (auto simp: signed_js_def signed_text_def)
  show "signed_text B (3 / 2) = ''+1.50'' \<and> signed_text B (- 2 / 5) = ''-0.40'' \<and>
       take 1 (signed_text B (3 / 2)) = ''+'' \<and> take 1 (signed_text B (- 2 / 5)) \<noteq> ''+'' \<and>
       \<bar>3 / 2 :: real\<bar> < 10 ^ 21 \<and>
       signed_text B (10 ^ 21) = ''+'' @ ToString B (10 ^ 21) \<and>
       formatNumber B Null 2 = ''--'' \<and>
       map_option current_temp
         (temp_stats B (Some \<lparr>temp_data = Some [\<lparr>t_year = 2024, t_month = 6, anomaly = Undefined\<rparr>],
                               baseline = None, temp_last_updated = None\<rparr>)) = Some ''--'' \<and>
       map_option current_temp
         (temp_stats B (Some \<lparr>temp_data = Some [\<lparr>t_year = 2024, t_month = 6, anomaly = Num (3 / 2)\<rparr>],
                               baseline = None, temp_last_updated = None\<rparr>)) = Some ''+1.50''"
    using a b c d by blast
qed

section \<open>The year buckets\<close>

text \<open>
  The grouping loop, key by key: after the loop, the object has one property per year
  of the document, and the property's value is \<^const>\<open>bucket_of\<close> that year.
\<close>

lemma group_step_map_of:
  "map_of (group_step dby d) k
     = (if k = year_key d then Some (slot_step (start dby k) d) else map_of dby k)"
  by (auto simp: group_step_def Let_def year_key_def slot_step_def start_def update_conv'
           split: option.splits)

lemma group_step_keys: "fst ` set (group_step dby d) = insert (year_key d) (fst ` set dby)"
proof -
  have "map_of dby k \<noteq> None \<Longrightarrow> k \<in> fst ` set dby" for k
    by (simp add: map_of_eq_None_iff)
  then show ?thesis
    by (auto simp: group_step_def Let_def year_key_def dom_update update_conv'
             split: option.splits)
qed

lemma group_step_distinct:
  "distinct (map fst dby) \<Longrightarrow> distinct (map fst (group_step dby d))"
  by (auto simp: group_step_def Let_def distinct_update split: option.splits)

lemma slot_step_length: "length (slot_step b d) = length b"
  by (simp add: slot_step_def)

lemma foldl_slot_step_length: "length (foldl slot_step b ds) = length b"
  by (induction ds arbitrary: b) (simp_all add: slot_step_length)

lemma start_group_step:
  "start (group_step dby d) k = (if k = year_key d then slot_step (start dby k) d else start dby k)"
  by (simp add: start_def group_step_map_of)

lemma foldl_group_step_keys:
  "fst ` set (foldl group_step acc data) = fst ` set acc \<union> year_key ` set data"
  by (induction data arbitrary: acc) (auto simp: group_step_keys)

lemma foldl_group_step_distinct:
  "distinct (map fst acc) \<Longrightarrow> distinct (map fst (foldl group_step acc data))"
  by (induction data arbitrary: acc) (simp_all add: group_step_distinct)

lemma foldl_group_step_start:
  "start (foldl group_step acc data) k
     = foldl slot_step (start acc k) (filter (\<lambda>d. year_key d = k) data)"
  by (induction data arbitrary: acc) (simp_all add: start_group_step)

lemma map_of_start:
  "map_of dby k = (if k \<in> fst ` set dby then Some (start dby k) else None)"
  by (auto simp: start_def map_of_eq_None_iff split: option.splits)

lemma groupByYear_map_of:
  "map_of (groupByYear data) k
     = (if k \<in> year_key ` set data then Some (bucket_of k data) else None)"
proof -
  have "start [] k = replicate 12 None"
    by (simp add: start_def)
  then show ?thesis
    unfolding groupByYear_def bucket_of_def
    by (subst map_of_start) (simp add: foldl_group_step_keys foldl_group_step_start)
qed

lemma groupByYear_keys_desc:
  "keys_desc (groupByYear data) = rev (sorted_list_of_set (year_key ` set data))"
proof -
  have d: "distinct (map fst (groupByYear data))"
    unfolding groupByYear_def by (rule foldl_group_step_distinct) simp
  have s: "set (map fst (groupByYear data)) = year_key ` set data"
    unfolding groupByYear_def by (simp add: foldl_group_step_keys)
  have "sort (map fst (groupByYear data)) = sorted_list_of_set (set (map fst (groupByYear data)))"
    using d by (simp only: sorted_list_of_set_sort_remdups distinct_remdups_id)
  then show ?thesis
    by (simp only: keys_desc_def s)
qed

lemma co2_buckets_char:
  "co2_buckets K data
     = map (\<lambda>k. \<lparr>s_name = k, s_data = bucket_of k data\<rparr>)
         (take K (rev (sorted_list_of_set (year_key ` set data))))"
proof -
  have "k \<in> year_key ` set data"
    if "k \<in> set (take K (rev (sorted_list_of_set (year_key ` set data))))" for k
    using that by (auto dest!: in_set_takeD)
  then show ?thesis
    by (simp add: co2_buckets_def Let_def year_series_def groupByYear_keys_desc groupByYear_map_of)
qed

lemma co2_buckets_shape:
  "length (co2_buckets K data) \<le> K \<and>
   list_all (\<lambda>s. length (s_data s) = 12) (co2_buckets K data) \<and>
   distinct (map s_name (co2_buckets K data)) \<and>
   sorted (rev (map s_name (co2_buckets K data))) \<and>
   map s_name (co2_buckets K data) = take K (rev (sorted_list_of_set (year_key ` set data)))"
proof -
  let ?ys = "rev (sorted_list_of_set (year_key ` set data))"
  have names: "map s_name (co2_buckets K data) = take K ?ys"
    by (simp add: co2_buckets_char comp_def)
  have "distinct ?ys"
    by simp
  then have d: "distinct (take K ?ys)"
    by (rule distinct_take)
  have "sorted (rev ?ys)"
    by simp
  then have "sorted (drop (length ?ys - K) (rev ?ys))"
    by (rule sorted_wrt_drop)
  then have s: "sorted (rev (take K ?ys))"
    by (simp add: rev_take)
  show ?thesis
    unfolding names using d s
    by (simp add: co2_buckets_char list_all_iff bucket_of_def foldl_slot_step_length)
qed

lemma foldl_slot_step_other:
  assumes "1 \<le> m" and "\<forall>d'\<in>set ds. month d' \<noteq> m"
  shows "foldl slot_step b ds ! nat (m - 1) = b ! nat (m - 1)"
  using assms(2)
proof (induction ds arbitrary: b)
  case Nil
  then show ?case by simp
next
  case (Cons d ds)
  have "slot_step b d ! nat (m - 1) = b ! nat (m - 1)"
    using Cons.prems assms(1) by (auto simp: slot_step_def nth_list_update)
  with Cons show ?case
    by simp
qed

lemma slot_step_invalid: "\<not> (1 \<le> month d \<and> month d \<le> 12) \<Longrightarrow> slot_step b d = b"
  by (auto simp: slot_step_def)

lemma bucket_of_invalid:
  "\<not> (1 \<le> month d \<and> month d \<le> 12) \<Longrightarrow> bucket_of k (xs @ d # ys) = bucket_of k (xs @ ys)"
  by (simp add: bucket_of_def slot_step_invalid)

lemma bucket_of_last_writer:
  assumes "1 \<le> month d" and "month d \<le> 12"
    and "\<forall>d'\<in>set ys. \<not> (year d' = year d \<and> month d' = month d)"
  shows "bucket_of (year_key d) (xs @ d # ys) ! nat (month d - 1) = Some (average d)"
proof -
  let ?P = "\<lambda>d'. year_key d' = year_key d"
  let ?b = "foldl slot_step (replicate 12 None) (filter ?P xs)"
  have later: "\<forall>d'\<in>set (filter ?P ys). month d' \<noteq> month d"
    using assms(3) by (auto simp: year_key_def dest: String_of_int_inj)
  have "length ?b = 12"
    by (simp add: foldl_slot_step_length)
  then have "slot_step ?b d ! nat (month d - 1) = Some (average d)"
    using assms(1,2) by (simp add: slot_step_def)
  then show ?thesis
    using foldl_slot_step_other [OF assms(1) later, of "slot_step ?b d"]
    by (simp add: bucket_of_def)
qed

lemma ice_bucket_length: "length (foldl ice_step b ds) = length b"
  by (induction ds arbitrary: b) (simp_all add: ice_step_def)

lemma foldl_ice_step_other:
  assumes "1 \<le> m" and "\<forall>d'\<in>set ds. i_month d' \<noteq> m"
  shows "foldl ice_step b ds ! nat (m - 1) = b ! nat (m - 1)"
  using assms(2)
proof (induction ds arbitrary: b)
  case Nil
  then show ?case by simp
next
  case (Cons d ds)
  have "ice_step b d ! nat (m - 1) = b ! nat (m - 1)"
    using Cons.prems assms(1) by (auto simp: ice_step_def nth_list_update)
  with Cons show ?case
    by simp
qed

lemma replicate_12: "replicate 12 x = [x, x, x, x, x, x, x, x, x, x, x, x]"
  by (simp add: numeral_eq_Suc)

lemma co2_buckets_names:
  "map s_name (co2_buckets K data) = take K (keys_desc (groupByYear data))"
  by (simp add: co2_buckets_def Let_def year_series_def comp_def)

lemma ice_buckets_names: "map s_name (ice_buckets K dat) = take K (keys_desc dat)"
  by (simp add: ice_buckets_def comp_def)

subsection \<open>The order of the years\<close>

text \<open>
  For a document whose years all have four digits, the buckets are those of the \<open>K\<close>
  most recent years, in descending order of the year.
\<close>

lemma sorted_list_of_set_image_mono:
  fixes f :: "int \<Rightarrow> string"
  assumes "finite S" and "\<And>x y. x \<in> S \<Longrightarrow> y \<in> S \<Longrightarrow> x < y \<Longrightarrow> f x < f y"
  shows "sorted_list_of_set (f ` S) = map f (sorted_list_of_set S)"
proof -
  have "sorted_wrt (<) (sorted_list_of_set S)"
    by (rule strict_sorted_list_of_set)
  moreover have "f x < f y"
    if "x \<in> set (sorted_list_of_set S)" "y \<in> set (sorted_list_of_set S)" "x < y" for x y
    using that assms by simp
  ultimately have "sorted_wrt (\<lambda>x y. f x < f y) (sorted_list_of_set S)"
    by (rule sorted_wrt_mono_rel [rotated])
  then have st: "sorted_wrt (<) (map f (sorted_list_of_set S))"
    by (simp add: sorted_wrt_map)
  have "sorted_wrt (<) (sorted_list_of_set (f ` S))"
    by (rule strict_sorted_list_of_set)
  moreover have "set (sorted_list_of_set (f ` S)) = set (map f (sorted_list_of_set S))"
    using assms(1) by simp
  ultimately show ?thesis
    by (rule strict_sorted_equal [OF st])
qed

lemma co2_buckets_four_digit_years:
  assumes "\<forall>d\<in>set data. 1000 \<le> year d \<and> year d \<le> 9999"
  shows "map s_name (co2_buckets K data)
           = map String_of_int (take K (rev (sorted_list_of_set (year ` set data))))"
proof -
  have mono: "String_of_int x < String_of_int y"
    if "x \<in> year ` set data" "y \<in> year ` set data" "x < y" for x y
  proof -
    have "1000 \<le> x \<and> x \<le> 9999" "1000 \<le> y \<and> y \<le> 9999"
      using that(1,2) assms by auto
    then show ?thesis
      using that(3) by (simp add: String_of_int_order)
  qed
  have "sorted_list_of_set (String_of_int ` (year ` set data))
          = map String_of_int (sorted_list_of_set (year ` set data))"
    by (rule sorted_list_of_set_image_mono) (simp, rule mono)
  moreover have "year_key ` set data = String_of_int ` (year ` set data)"
    unfolding year_key_def by (simp only: image_image)
  moreover have "map s_name (co2_buckets K data)
                   = take K (rev (sorted_list_of_set (year_key ` set data)))"
    using co2_buckets_shape [of K data] by simp
  ultimately show ?thesis
    by (simp only: rev_map take_map)
qed

text \<open>
  Claim C2, evaluated. The years are sorted as strings, so the year 999 stands before
  2024; with six years in the document, \<open>slice(0, 5)\<close> then keeps 999 and drops 2020.
  The sea-ice chart sorts its year keys the same way.
\<close>

theorem normalizer_year_order_failing_input:
  "map s_name (co2_buckets 5 [\<lparr>year = 999, month = 1, average = 280\<rparr>,
                               \<lparr>year = 2024, month = 1, average = 420\<rparr>])
     = [''999'', ''2024''] \<and>
   map s_name (co2_buckets 5 [\<lparr>year = 999, month = 1, average = 280\<rparr>,
                               \<lparr>year = 2020, month = 1, average = 412\<rparr>,
                               \<lparr>year = 2021, month = 1, average = 414\<rparr>,
                               \<lparr>year = 2022, month = 1, average = 416\<rparr>,
                               \<lparr>year = 2023, month = 1, average = 418\<rparr>,
                               \<lparr>year = 2024, month = 1, average = 420\<rparr>])
     = [''999'', ''2024'', ''2023'', ''2022'', ''2021''] \<and>
   map s_name (ice_buckets 5 [(''999'', [\<lparr>i_month = 9, extent = 7\<rparr>]),
                               (''2024'', [\<lparr>i_month = 9, extent = 4.2\<rparr>])])
     = [''999'', ''2024'']"
  by (simp add: co2_buckets_names ice_buckets_names groupByYear_def group_step_def keys_desc_def
        String_of_int_def string_of_nat.simps digit_char_def Let_def)

subsection \<open>Observations and their slots\<close>

text \<open>
  An observation with a month outside 1 to 12 whose year no other observation has: the
  year buckets of the document without it are those of the document with it, taken
  with one more place, without the bucket of its year.
\<close>

lemma in_take_filter:
  "x \<in> set (take K xs) \<Longrightarrow> P x \<Longrightarrow> x \<in> set (take K (filter P xs))"
proof (induction xs arbitrary: K)
  case Nil
  then show ?case by simp
next
  case (Cons a xs)
  show ?case
  proof (cases K)
    case 0
    with Cons.prems show ?thesis by simp
  next
    case (Suc k)
    show ?thesis
    proof (cases "P a")
      case True
      with Cons Suc show ?thesis by auto
    next
      case False
      with Cons.prems Suc have "x \<in> set (take k xs)"
        by auto
      then have "x \<in> set (take k (filter P xs))"
        using Cons.IH Cons.prems(2) by blast
      then have "x \<in> set (take (Suc k) (filter P xs))"
        using set_take_subset_set_take [of k "Suc k" "filter P xs"] by auto
      with False Suc show ?thesis by simp
    qed
  qed
qed

lemma take_filter_one_more:
  "distinct xs \<Longrightarrow>
   take K (filter (\<lambda>k. k \<noteq> x) (take (Suc K) xs)) = take K (filter (\<lambda>k. k \<noteq> x) xs)"
proof (induction xs arbitrary: K)
  case Nil
  then show ?case by simp
next
  case (Cons a xs)
  show ?case
  proof (cases "a = x")
    case True
    with Cons.prems have "filter (\<lambda>k. k \<noteq> x) xs = xs"
      by (auto simp: filter_id_conv)
    moreover from True Cons.prems have "filter (\<lambda>k. k \<noteq> x) (take K xs) = take K xs"
      by (auto simp: filter_id_conv dest: in_set_takeD)
    ultimately show ?thesis
      using True by simp
  next
    case False
    show ?thesis
    proof (cases K)
      case 0
      then show ?thesis by simp
    next
      case (Suc k)
      with False Cons show ?thesis by simp
    qed
  qed
qed

lemma keys_without:
  assumes "finite S" and "x \<notin> S"
  shows "rev (sorted_list_of_set S)
           = filter (\<lambda>k. k \<noteq> x) (rev (sorted_list_of_set (insert x S)))"
proof -
  have "sorted_list_of_set (insert x S - {x}) = remove1 x (sorted_list_of_set (insert x S))"
    using assms(1) by (intro sorted_list_of_set_remove) simp
  moreover have "insert x S - {x} = S"
    using assms(2) by auto
  moreover have "remove1 x (sorted_list_of_set (insert x S))
                   = filter (\<lambda>k. k \<noteq> x) (sorted_list_of_set (insert x S))"
    by (simp add: distinct_remove1_removeAll removeAll_filter_not_eq) metis
  ultimately show ?thesis
    by (simp add: rev_filter)
qed

lemma co2_buckets_new_year:
  assumes inv: "\<not> (1 \<le> month d \<and> month d \<le> 12)" and new: "year d \<notin> year ` set (xs @ ys)"
  shows "co2_buckets K (xs @ ys)
           = take K (filter (\<lambda>s. s_name s \<noteq> String_of_int (year d))
                       (co2_buckets (Suc K) (xs @ d # ys)))"
    and "\<forall>s\<in>set (co2_buckets K (xs @ d # ys)).
           s_name s \<noteq> String_of_int (year d) \<longrightarrow> s \<in> set (co2_buckets K (xs @ ys))"
    and "\<forall>s\<in>set (co2_buckets K (xs @ d # ys)).
           s_name s = String_of_int (year d) \<longrightarrow> s_data s = replicate 12 None"
proof -
  let ?S = "year_key ` set (xs @ ys)"
  let ?L' = "rev (sorted_list_of_set (insert (year_key d) ?S))"
  let ?f = "\<lambda>k. \<lparr>s_name = k, s_data = bucket_of k (xs @ ys)\<rparr>"
  let ?P = "\<lambda>s. s_name s \<noteq> year_key d"
  have same: "bucket_of k (xs @ d # ys) = bucket_of k (xs @ ys)" for k
    using inv by (rule bucket_of_invalid)
  have "\<forall>d'\<in>set (xs @ ys). year d' \<noteq> year d"
    using new by (metis imageI)
  then have notin: "year_key d \<notin> ?S"
    unfolding year_key_def by (metis (no_types, lifting) String_of_int_inj imageE)
  have keys: "year_key ` set (xs @ d # ys) = insert (year_key d) ?S"
    by auto
  have wd: "co2_buckets N (xs @ d # ys) = map ?f (take N ?L')" for N
    by (simp only: co2_buckets_char keys same)
  have wo: "co2_buckets K (xs @ ys) = map ?f (take K (filter (\<lambda>k. k \<noteq> year_key d) ?L'))"
    using keys_without [of ?S "year_key d"] notin by (simp add: co2_buckets_char)
  have dist: "distinct ?L'"
    by (simp only: distinct_rev distinct_sorted_list_of_set)
  have fm: "filter ?P (map ?f ks) = map ?f (filter (\<lambda>k. k \<noteq> year_key d) ks)" for ks
    by (induction ks) simp_all
  have "take K (filter ?P (co2_buckets (Suc K) (xs @ d # ys)))
          = map ?f (take K (filter (\<lambda>k. k \<noteq> year_key d) (take (Suc K) ?L')))"
    by (simp only: wd fm take_map)
  also have "\<dots> = map ?f (take K (filter (\<lambda>k. k \<noteq> year_key d) ?L'))"
    by (simp only: take_filter_one_more [OF dist])
  finally have rel: "co2_buckets K (xs @ ys)
           = take K (filter ?P (co2_buckets (Suc K) (xs @ d # ys)))"
    using wo by simp
  then show "co2_buckets K (xs @ ys)
           = take K (filter (\<lambda>s. s_name s \<noteq> String_of_int (year d))
                       (co2_buckets (Suc K) (xs @ d # ys)))"
    by (simp add: year_key_def)
  have tk: "co2_buckets K (xs @ d # ys) = take K (co2_buckets (Suc K) (xs @ d # ys))"
    by (simp add: wd take_map)
  show "\<forall>s\<in>set (co2_buckets K (xs @ d # ys)).
           s_name s \<noteq> String_of_int (year d) \<longrightarrow> s \<in> set (co2_buckets K (xs @ ys))"
  proof (intro ballI impI)
    fix s
    assume "s \<in> set (co2_buckets K (xs @ d # ys))" and "s_name s \<noteq> String_of_int (year d)"
    then have "s \<in> set (take K (co2_buckets (Suc K) (xs @ d # ys)))" and "?P s"
      using tk by (simp_all add: year_key_def)
    then have "s \<in> set (take K (filter ?P (co2_buckets (Suc K) (xs @ d # ys))))"
      by (rule in_take_filter)
    then show "s \<in> set (co2_buckets K (xs @ ys))"
      by (simp only: rel)
  qed
  have "\<forall>d'\<in>set (xs @ ys). year_key d' \<noteq> year_key d"
    using notin by (metis imageI)
  then have "filter (\<lambda>d'. year_key d' = year_key d) (xs @ ys) = []"
    by (simp only: filter_empty_conv)
  then have "bucket_of (year_key d) (xs @ ys) = replicate 12 None"
    by (simp add: bucket_of_def)
  then show "\<forall>s\<in>set (co2_buckets K (xs @ d # ys)).
           s_name s = String_of_int (year d) \<longrightarrow> s_data s = replicate 12 None"
    by (auto simp: wd year_key_def)
qed

text \<open>
  Claim C3, as stated, fails. The observation of 2020 with month 13 writes no slot, but
  the document with it has one bucket more than the document without it: the bucket of
  2020, with 12 absent slots. And of two observations of January 2020, slot 0 of the
  bucket holds the value of the later one, not of the first.
\<close>

theorem invalid_month_counterexample:
  "co2_buckets 5 [\<lparr>year = 2024, month = 1, average = 420\<rparr>, \<lparr>year = 2020, month = 13, average = 5\<rparr>]
     = [\<lparr>s_name = ''2024'',
         s_data = [Some 420, None, None, None, None, None, None, None, None, None, None, None]\<rparr>,
        \<lparr>s_name = ''2020'',
         s_data = [None, None, None, None, None, None, None, None, None, None, None, None]\<rparr>] \<and>
   co2_buckets 5 [\<lparr>year = 2024, month = 1, average = 420\<rparr>]
     = [\<lparr>s_name = ''2024'',
         s_data = [Some 420, None, None, None, None, None, None, None, None, None, None, None]\<rparr>] \<and>
   co2_buckets 5 [\<lparr>year = 2020, month = 1, average = 410\<rparr>, \<lparr>year = 2020, month = 1, average = 411\<rparr>]
     = [\<lparr>s_name = ''2020'',
         s_data = [Some 411, None, None, None, None, None, None, None, None, None, None, None]\<rparr>]"
  by (simp add: co2_buckets_def groupByYear_def group_step_def keys_desc_def year_series_def
        String_of_int_def string_of_nat.simps digit_char_def Let_def replicate_12)

text \<open>
  Claim C3, amended. An observation with a month from 1 to 12 that no later
  observation of the same year and month follows has its value at slot \<open>month - 1\<close> of
  its year's bucket. An observation with a month outside 1 to 12 writes no slot. When
  its year occurs in another observation of the document, the year buckets are those of
  the document without it. When it does not, its year counts among the years of the
  document, with a bucket of 12 absent slots, so it can take one of the \<open>K\<close> places
  (when all places are taken, the last year shown without it is left out) or get none:
  every bucket shown for another year is a bucket shown without the observation, and
  the buckets shown without it are the first \<open>K\<close> of those shown with it (with one more
  place) that are not its year's. In the sea-ice chart, where the years are the keys of
  the document, the bucket of a year is that of the year without the observation.
\<close>

theorem normalizer_slots:
  "(1 \<le> month d \<and> month d \<le> 12 \<and> (\<forall>d'\<in>set ys. \<not> (year d' = year d \<and> month d' = month d))
      \<longrightarrow> (\<exists>b. map_of (groupByYear (xs @ d # ys)) (String_of_int (year d)) = Some b \<and>
               b ! nat (month d - 1) = Some (average d)) \<and>
          (\<forall>s\<in>set (co2_buckets K (xs @ d # ys)).
              s_name s = String_of_int (year d) \<longrightarrow> s_data s ! nat (month d - 1) = Some (average d))) \<and>
   (\<not> (1 \<le> month d \<and> month d \<le> 12) \<and> year d \<in> year ` set (xs @ ys)
      \<longrightarrow> co2_buckets K (xs @ d # ys) = co2_buckets K (xs @ ys)) \<and>
   (\<not> (1 \<le> month d \<and> month d \<le> 12) \<and> year d \<notin> year ` set (xs @ ys)
      \<longrightarrow> co2_buckets K (xs @ ys)
            = take K (filter (\<lambda>s. s_name s \<noteq> String_of_int (year d))
                        (co2_buckets (Suc K) (xs @ d # ys))) \<and>
          (\<forall>s\<in>set (co2_buckets K (xs @ d # ys)).
              s_name s \<noteq> String_of_int (year d) \<longrightarrow> s \<in> set (co2_buckets K (xs @ ys))) \<and>
          (\<forall>s\<in>set (co2_buckets K (xs @ d # ys)).
              s_name s = String_of_int (year d) \<longrightarrow> s_data s = replicate 12 None) \<and>
          map_of (groupByYear (xs @ d # ys)) (String_of_int (year d)) = Some (replicate 12 None) \<and>
          (\<forall>k. k \<noteq> String_of_int (year d)
               \<longrightarrow> map_of (groupByYear (xs @ d # ys)) k = map_of (groupByYear (xs @ ys)) k)) \<and>
   (1 \<le> i_month e \<and> i_month e \<le> 12 \<and> (\<forall>e'\<in>set vs. i_month e' \<noteq> i_month e)
      \<longrightarrow> ice_bucket (us @ e # vs) ! nat (i_month e - 1) = Some (extent e)) \<and>
   (\<not> (1 \<le> i_month e \<and> i_month e \<le> 12) \<longrightarrow> ice_bucket (us @ e # vs) = ice_bucket (us @ vs))"
proof (intro conjI impI)
  assume a: "1 \<le> month d \<and> month d \<le> 12 \<and> (\<forall>d'\<in>set ys. \<not> (year d' = year d \<and> month d' = month d))"
  then have slot: "bucket_of (year_key d) (xs @ d # ys) ! nat (month d - 1) = Some (average d)"
    by (intro bucket_of_last_writer) auto
  then show "\<exists>b. map_of (groupByYear (xs @ d # ys)) (String_of_int (year d)) = Some b \<and>
               b ! nat (month d - 1) = Some (average d)"
    by (simp add: groupByYear_map_of year_key_def)
  show "\<forall>s\<in>set (co2_buckets K (xs @ d # ys)).
              s_name s = String_of_int (year d) \<longrightarrow> s_data s ! nat (month d - 1) = Some (average d)"
    using slot by (auto simp: co2_buckets_char year_key_def)
next
  assume a: "\<not> (1 \<le> month d \<and> month d \<le> 12) \<and> year d \<in> year ` set (xs @ ys)"
  then have "year_key d \<in> year_key ` set (xs @ ys)"
    by (auto simp: year_key_def)
  then have "year_key ` set (xs @ d # ys) = year_key ` set (xs @ ys)"
    by auto
  moreover have "bucket_of k (xs @ d # ys) = bucket_of k (xs @ ys)" for k
    using a by (intro bucket_of_invalid) simp
  ultimately show "co2_buckets K (xs @ d # ys) = co2_buckets K (xs @ ys)"
    by (simp only: co2_buckets_char)
next
  assume a: "\<not> (1 \<le> month d \<and> month d \<le> 12) \<and> year d \<notin> year ` set (xs @ ys)"
  from a show "co2_buckets K (xs @ ys)
            = take K (filter (\<lambda>s. s_name s \<noteq> String_of_int (year d))
                        (co2_buckets (Suc K) (xs @ d # ys)))"
    by (intro co2_buckets_new_year(1)) simp_all
  from a show "\<forall>s\<in>set (co2_buckets K (xs @ d # ys)).
              s_name s \<noteq> String_of_int (year d) \<longrightarrow> s \<in> set (co2_buckets K (xs @ ys))"
    by (intro co2_buckets_new_year(2)) simp_all
  from a show "\<forall>s\<in>set (co2_buckets K (xs @ d # ys)).
              s_name s = String_of_int (year d) \<longrightarrow> s_data s = replicate 12 None"
    by (intro co2_buckets_new_year(3)) simp_all
  from a have "\<forall>d'\<in>set (xs @ ys). year d' \<noteq> year d"
    by (metis imageI)
  then have "filter (\<lambda>d'. year_key d' = year_key d) (xs @ ys) = []"
    unfolding filter_empty_conv year_key_def by (metis String_of_int_inj)
  then have "bucket_of (year_key d) (xs @ ys) = replicate 12 None"
    by (simp add: bucket_of_def)
  then have "bucket_of (year_key d) (xs @ d # ys) = replicate 12 None"
    using a bucket_of_invalid [of d "year_key d" xs ys] by simp
  then show "map_of (groupByYear (xs @ d # ys)) (String_of_int (year d)) = Some (replicate 12 None)"
    by (simp add: groupByYear_map_of year_key_def)
  have "bucket_of k (xs @ d # ys) = bucket_of k (xs @ ys)" for k
    using a by (intro bucket_of_invalid) simp
  then show "\<forall>k. k \<noteq> String_of_int (year d)
               \<longrightarrow> map_of (groupByYear (xs @ d # ys)) k = map_of (groupByYear (xs @ ys)) k"
    by (auto simp: groupByYear_map_of year_key_def)
next
  assume a: "1 \<le> i_month e \<and> i_month e \<le> 12 \<and> (\<forall>e'\<in>set vs. i_month e' \<noteq> i_month e)"
  let ?b = "foldl ice_step (replicate 12 None) us"
  have "length ?b = 12"
    by (simp add: ice_bucket_length)
  then have "ice_step ?b e ! nat (i_month e - 1) = Some (extent e)"
    using a by (auto simp: ice_step_def)
  then show "ice_bucket (us @ e # vs) ! nat (i_month e - 1) = Some (extent e)"
    using foldl_ice_step_other [of "i_month e" vs "ice_step ?b e"] a
    by (simp add: ice_bucket_def)
next
  assume "\<not> (1 \<le> i_month e \<and> i_month e \<le> 12)"
  then have "ice_step b e = b" for b
    by (auto simp: ice_step_def)
  then show "ice_bucket (us @ e # vs) = ice_bucket (us @ vs)"
    by (simp add: ice_bucket_def)
qed

text \<open>
  Claim C3, amended, at concrete documents: March 2020 after January 2020; month 13 of
  2020 after January 2020; month 13 of 2030 after January 2020, where with one place
  the bucket shown is that of 2030, with 12 absent slots, and the bucket of 2020 is
  left out; and sea-ice observations with the months 9 and 0, and 9 and 8.
\<close>

theorem normalizer_slots_witness:
  "(\<exists>b. map_of (groupByYear [\<lparr>year = 2020, month = 1, average = 410\<rparr>,
                                \<lparr>year = 2020, month = 3, average = 412\<rparr>]) ''2020'' = Some b \<and>
        b ! 2 = Some 412) \<and>
   co2_buckets 5 [\<lparr>year = 2020, month = 1, average = 410\<rparr>, \<lparr>year = 2020, month = 13, average = 5\<rparr>]
     = co2_buckets 5 [\<lparr>year = 2020, month = 1, average = 410\<rparr>] \<and>
   map_of (groupByYear [\<lparr>year = 2020, month = 1, average = 410\<rparr>,
                        \<lparr>year = 2030, month = 13, average = 5\<rparr>]) ''2030''
     = Some (replicate 12 None) \<and>
   co2_buckets 1 [\<lparr>year = 2020, month = 1, average = 410\<rparr>]
     = take 1 (filter (\<lambda>s. s_name s \<noteq> ''2030'')
                 (co2_buckets (Suc 1) [\<lparr>year = 2020, month = 1, average = 410\<rparr>,
                                       \<lparr>year = 2030, month = 13, average = 5\<rparr>])) \<and>
   co2_buckets 1 [\<lparr>year = 2020, month = 1, average = 410\<rparr>, \<lparr>year = 2030, month = 13, average = 5\<rparr>]
     = [\<lparr>s_name = ''2030'',
         s_data = [None, None, None, None, None, None, None, None, None, None, None, None]\<rparr>] \<and>
   ice_bucket [\<lparr>i_month = 9, extent = 4.2\<rparr>, \<lparr>i_month = 0, extent = 7\<rparr>]
     = ice_bucket [\<lparr>i_month = 9, extent = 4.2\<rparr>] \<and>
   ice_bucket [\<lparr>i_month = 9, extent = 4.2\<rparr>, \<lparr>i_month = 8, extent = 5\<rparr>] ! 8 = Some 4.2"
proof -
  have k: "String_of_int 2020 = ''2020''" "String_of_int 2030 = ''2030''"
    by (simp_all add: String_of_int_def string_of_nat.simps digit_char_def)
  have a: "(\<exists>b. map_of (groupByYear [\<lparr>year = 2020, month = 1, average = 410\<rparr>,
                                \<lparr>year = 2020, month = 3, average = 412\<rparr>]) ''2020'' = Some b \<and>
        b ! 2 = Some 412) \<and>
      ice_bucket [\<lparr>i_month = 9, extent = 4.2\<rparr>, \<lparr>i_month = 8, extent = 5\<rparr>] ! 8 = Some 4.2"
    using normalizer_slots
            [where xs = "[\<lparr>year = 2020, month = 1, average = 410\<rparr>]"
               and d = "\<lparr>year = 2020, month = 3, average = 412\<rparr>" and ys = "[]" and K = 5
               and us = "[]" and e = "\<lparr>i_month = 9, extent = 4.2\<rparr>"
               and vs = "[\<lparr>i_month = 8, extent = 5\<rparr>]"]
    by (simp add: k)
  have b: "co2_buckets 5 [\<lparr>year = 2020, month = 1, average = 410\<rparr>, \<lparr>year = 2020, month = 13, average = 5\<rparr>]
       = co2_buckets 5 [\<lparr>year = 2020, month = 1, average = 410\<rparr>] \<and>
     ice_bucket [\<lparr>i_month = 9, extent = 4.2\<rparr>, \<lparr>i_month = 0, extent = 7\<rparr>]
       = ice_bucket [\<lparr>i_month = 9, extent = 4.2\<rparr>]"
    using normalizer_slots
            [where xs = "[\<lparr>year = 2020, month = 1, average = 410\<rparr>]"
               and d = "\<lparr>year = 2020, month = 13, average = 5\<rparr>" and ys = "[]" and K = 5
               and us = "[\<lparr>i_month = 9, extent = 4.2\<rparr>]" and e = "\<lparr>i_month = 0, extent = 7\<rparr>"
               and vs = "[]"]
    by (simp add: k)
  have c: "map_of (groupByYear [\<lparr>year = 2020, month = 1, average = 410\<rparr>,
                        \<lparr>year = 2030, month = 13, average = 5\<rparr>]) ''2030''
       = Some (replicate 12 None) \<and>
     co2_buckets 1 [\<lparr>year = 2020, month = 1, average = 410\<rparr>]
       = take 1 (filter (\<lambda>s. s_name s \<noteq> ''2030'')
                 (co2_buckets (Suc 1) [\<lparr>year = 2020, month = 1, average = 410\<rparr>,
                                       \<lparr>year = 2030, month = 13, average = 5\<rparr>]))"
    using normalizer_slots
            [where xs = "[\<lparr>year = 2020, month = 1, average = 410\<rparr>]"
               and d = "\<lparr>year = 2030, month = 13, average = 5\<rparr>" and ys = "[]" and K = 1
               and us = "[]" and e = "\<lparr>i_month = 9, extent = 4.2\<rparr>" and vs = "[]"]
    by (simp add: k)
  have d: "co2_buckets 1 [\<lparr>year = 2020, month = 1, average = 410\<rparr>, \<lparr>year = 2030, month = 13, average = 5\<rparr>]
     = [\<lparr>s_name = ''2030'',
         s_data = [None, None, None, None, None, None, None, None, None, None, None, None]\<rparr>]"
    by (simp add: co2_buckets_def groupByYear_def group_step_def keys_desc_def year_series_def
          String_of_int_def string_of_nat.simps digit_char_def Let_def replicate_12)
  show ?thesis
    using a b c d by blast
qed

subsection \<open>The order of the series\<close>

text \<open>
  Claim C7, evaluated. The reference series stands last in both charts, but the year
  9999 stands before the year 10000.
\<close>

theorem series_order_failing_input:
  "map s_name (co2_series 5 [\<lparr>year = 10000, month = 1, average = 500\<rparr>,
                              \<lparr>year = 9999, month = 1, average = 499\<rparr>])
     = [''9999'', ''10000'', ''1991-2020 Mittel''] \<and>
   map s_name (ice_series B 5 [(''10000'', [\<lparr>i_month = 9, extent = 4.2\<rparr>]),
                                (''9999'', [\<lparr>i_month = 9, extent = 4.3\<rparr>])]
                 (Some [(''9'', 4.6)]))
     = [''9999'', ''10000'', ''1981-2010 Median'']"
  by (simp add: co2_series_def ice_series_def co2_buckets_names ice_buckets_names groupByYear_def
        group_step_def keys_desc_def String_of_int_def string_of_nat.simps digit_char_def Let_def)

text \<open>
  What holds of the series of both charts for every document: the reference series is
  the last one (in the sea-ice chart, when the document has a median table), and the
  years before it are in descending order of their keys.
\<close>

lemma co2_series_reference_last:
  "last (co2_series K data)
     = \<lparr>s_name = ''1991-2020 Mittel'', s_data = getMonthlyBaseline data 1991 2020\<rparr> \<and>
   butlast (co2_series K data) = co2_buckets K data"
  by (simp add: co2_series_def)

lemma ice_series_reference_last:
  "last (ice_series B K dat (Some tbl))
     = \<lparr>s_name = ''1981-2010 Median'', s_data = median_curve B tbl\<rparr> \<and>
   butlast (ice_series B K dat (Some tbl)) = ice_buckets K dat \<and>
   ice_series B K dat None = ice_buckets K dat"
  by (simp add: ice_series_def)

lemma ice_buckets_shape:
  "length (ice_buckets K dat) \<le> K \<and>
   list_all (\<lambda>s. length (s_data s) = 12) (ice_buckets K dat) \<and>
   sorted (rev (map s_name (ice_buckets K dat))) \<and>
   (distinct (map fst dat) \<longrightarrow> distinct (map s_name (ice_buckets K dat)))"
proof -
  have in_keys: "y \<in> fst ` set dat" if "y \<in> set (take K (keys_desc dat))" for y
    using that by (auto simp: keys_desc_def dest!: in_set_takeD)
  have len: "length (case map_of dat y of None \<Rightarrow> [] | Some yd \<Rightarrow> ice_bucket yd) = 12"
    if "y \<in> set (take K (keys_desc dat))" for y
  proof -
    from in_keys [OF that] obtain yd where "map_of dat y = Some yd"
      by (cases "map_of dat y") (auto simp: map_of_eq_None_iff)
    then show ?thesis
      by (simp add: ice_bucket_def ice_bucket_length)
  qed
  have "sorted (rev (keys_desc dat))"
    by (simp add: keys_desc_def)
  then have "sorted (drop (length (keys_desc dat) - K) (rev (keys_desc dat)))"
    by (rule sorted_wrt_drop)
  then have s: "sorted (rev (take K (keys_desc dat)))"
    by (simp add: rev_take)
  have d: "distinct (take K (keys_desc dat))" if "distinct (map fst dat)"
    using that by (simp add: keys_desc_def)
  show ?thesis
    using s d len by (simp add: ice_buckets_names) (simp add: ice_buckets_def list_all_iff)
qed

end
